theory Spec2Isabelle
  imports Main
begin

section \<open>JavaScript values\<close>

text \<open>
  The values that flow through \<^verbatim>\<open>src/SSR/plugins/1.js\<close>: request options, configs,
  results, cached data, stored data and everything that is thrown. An object is its list
  of own properties in creation order. Numbers are integers here: the code only handles
  status codes, millisecond timestamps and counters. Functions are not values of this
  type: interceptor handlers are kept apart, in the client.
\<close>

datatype val =
    Undefined
  | Null
  | Bool bool
  | Num int
  | Str string
  | Obj "(string \<times> val) list"

text \<open>A computation that may throw: \<open>Inl\<close> carries the thrown value.\<close>

type_synonym 'a thrown = "val + 'a"

fun truthy :: "val \<Rightarrow> bool" where
  "truthy Undefined = False"
| "truthy Null = False"
| "truthy (Bool b) = b"
| "truthy (Num n) = (n \<noteq> 0)"
| "truthy (Str s) = (s \<noteq> [])"
| "truthy (Obj ps) = True"

text \<open>\<^verbatim>\<open>a || b\<close>\<close>

definition or_else :: "val \<Rightarrow> val \<Rightarrow> val" where
  "or_else a b = (if truthy a then a else b)"

fun typeof :: "val \<Rightarrow> string" where
  "typeof Undefined = ''undefined''"
| "typeof Null = ''object''"
| "typeof (Bool b) = ''boolean''"
| "typeof (Num n) = ''number''"
| "typeof (Str s) = ''string''"
| "typeof (Obj ps) = ''object''"

subsection \<open>Decimal numerals\<close>

definition digit_char :: "int \<Rightarrow> char" where
  "digit_char d =
     (if d = 0 then CHR ''0'' else if d = 1 then CHR ''1'' else if d = 2 then CHR ''2''
      else if d = 3 then CHR ''3'' else if d = 4 then CHR ''4'' else if d = 5 then CHR ''5''
      else if d = 6 then CHR ''6'' else if d = 7 then CHR ''7'' else if d = 8 then CHR ''8''
      else CHR ''9'')"

function dec :: "int \<Rightarrow> string" where
  "dec n = (if n < 10 then [digit_char n] else dec (n div 10) @ [digit_char (n mod 10)])"
  by pat_completeness auto
termination
  by (relation "measure nat") auto

declare dec.simps [simp del]

text \<open>A number inside a template literal.\<close>

definition num_to_string :: "int \<Rightarrow> string" where
  "num_to_string i = (if i < 0 then CHR ''-'' # dec (- i) else dec i)"

definition is_digit :: "char \<Rightarrow> bool" where
  "is_digit ch = (48 \<le> (of_char ch :: int) \<and> (of_char ch :: int) \<le> 57)"

definition dec_value :: "string \<Rightarrow> int" where
  "dec_value s = foldl (\<lambda>n ch. 10 * n + (of_char ch - 48)) 0 s"

subsection \<open>Strings\<close>

text \<open>\<^verbatim>\<open>s.startsWith(p)\<close> and \<^verbatim>\<open>s.includes(p)\<close>\<close>

fun startsWith :: "string \<Rightarrow> string \<Rightarrow> bool" where
  "startsWith s [] = True"
| "startsWith [] (p # ps) = False"
| "startsWith (ch # s) (p # ps) = (ch = p \<and> startsWith s ps)"

fun str_includes :: "string \<Rightarrow> string \<Rightarrow> bool" where
  "str_includes [] p = (p = [])"
| "str_includes (ch # s) p = (startsWith (ch # s) p \<or> str_includes s p)"

text \<open>String conversion, as a template literal applies it.\<close>

fun to_string :: "val \<Rightarrow> string" where
  "to_string Undefined = ''undefined''"
| "to_string Null = ''null''"
| "to_string (Bool b) = (if b then ''true'' else ''false'')"
| "to_string (Num n) = num_to_string n"
| "to_string (Str s) = s"
| "to_string (Obj ps) = ''[object Object]''"

subsection \<open>Maps and objects\<close>

text \<open>
  A \<^verbatim>\<open>Map\<close> with string keys is the list of its entries in insertion order:
  \<^verbatim>\<open>set\<close> on a key already present replaces the value where it stands, a new key goes
  to the end.
\<close>

fun Map_set :: "(string \<times> 'v) list \<Rightarrow> string \<Rightarrow> 'v \<Rightarrow> (string \<times> 'v) list" where
  "Map_set [] k v = [(k, v)]"
| "Map_set (p # m) k v = (if fst p = k then (k, v) # m else p # Map_set m k v)"

definition Map_get :: "(string \<times> 'v) list \<Rightarrow> string \<Rightarrow> 'v option" where
  "Map_get m k = map_of m k"

definition Map_has :: "(string \<times> 'v) list \<Rightarrow> string \<Rightarrow> bool" where
  "Map_has m k = (map_of m k \<noteq> None)"

definition Map_delete :: "(string \<times> 'v) list \<Rightarrow> string \<Rightarrow> (string \<times> 'v) list" where
  "Map_delete m k = filter (\<lambda>p. fst p \<noteq> k) m"

text \<open>
  The own property keys of an object are enumerated with the array indices first, in
  ascending numeric order, and then the other strings in creation order. An array index
  is the canonical decimal string of an integer below \<open>2^32 - 1\<close>.
\<close>

fun canonical_digits :: "string \<Rightarrow> bool" where
  "canonical_digits [] = False"
| "canonical_digits [ch] = is_digit ch"
| "canonical_digits (ch # cs) = (is_digit ch \<and> ch \<noteq> CHR ''0'' \<and> list_all is_digit cs)"

definition is_array_index :: "string \<Rightarrow> bool" where
  "is_array_index s = (canonical_digits s \<and> dec_value s < 4294967295)"

definition own_entries :: "(string \<times> val) list \<Rightarrow> (string \<times> val) list" where
  "own_entries ps =
     sort_key (\<lambda>p. dec_value (fst p)) (filter (\<lambda>p. is_array_index (fst p)) ps)
     @ filter (\<lambda>p. \<not> is_array_index (fst p)) ps"

text \<open>Writing a property: an existing key keeps its place of creation.\<close>

definition set_prop :: "(string \<times> val) list \<Rightarrow> string \<Rightarrow> val \<Rightarrow> (string \<times> val) list" where
  "set_prop ps k v = Map_set ps k v"

fun chars_from :: "int \<Rightarrow> string \<Rightarrow> (string \<times> val) list" where
  "chars_from i [] = []"
| "chars_from i (ch # s) = (dec i, Str [ch]) # chars_from (i + 1) s"

text \<open>\<^verbatim>\<open>Object.entries(v)\<close>, also the properties that \<^verbatim>\<open>{...v}\<close> copies.\<close>

fun Object_entries :: "val \<Rightarrow> (string \<times> val) list" where
  "Object_entries (Obj ps) = own_entries ps"
| "Object_entries (Str s) = chars_from 0 s"
| "Object_entries v = []"

text \<open>\<^verbatim>\<open>{...target, ...v}\<close>: the properties of \<open>v\<close> written over those of the target.\<close>

definition spread :: "(string \<times> val) list \<Rightarrow> val \<Rightarrow> (string \<times> val) list" where
  "spread target v = foldl (\<lambda>ps p. set_prop ps (fst p) (snd p)) target (Object_entries v)"

text \<open>\<^verbatim>\<open>Object.fromEntries(map)\<close>\<close>

definition Object_fromEntries :: "(string \<times> val) list \<Rightarrow> val" where
  "Object_fromEntries m = Obj (foldl (\<lambda>ps p. set_prop ps (fst p) (snd p)) [] m)"

text \<open>
  An \<^verbatim>\<open>Error\<close> instance is the object of its \<^verbatim>\<open>name\<close> and its
  \<^verbatim>\<open>message\<close>, the two properties the code reads from an error.
\<close>

definition new_Error :: "string \<Rightarrow> string \<Rightarrow> val" where
  "new_Error name message = Obj [(''name'', Str name), (''message'', Str message)]"

text \<open>
  Reading a property. Reading from \<^verbatim>\<open>undefined\<close> or \<^verbatim>\<open>null\<close> throws a
  \<^verbatim>\<open>TypeError\<close>; a property that is absent reads as \<^verbatim>\<open>undefined\<close>.
\<close>

definition cannot_read :: "val \<Rightarrow> string \<Rightarrow> val" where
  "cannot_read v k =
     new_Error ''TypeError''
       (''Cannot read properties of '' @ to_string v @ '' (reading '' @ k @ '')'')"

definition own_prop :: "(string \<times> val) list \<Rightarrow> string \<Rightarrow> val" where
  "own_prop ps k = (case map_of ps k of None \<Rightarrow> Undefined | Some v \<Rightarrow> v)"

fun get_member :: "val \<Rightarrow> string \<Rightarrow> val thrown" where
  "get_member Undefined k = Inl (cannot_read Undefined k)"
| "get_member Null k = Inl (cannot_read Null k)"
| "get_member (Obj ps) k = Inr (own_prop ps k)"
| "get_member v k = Inr Undefined"

text \<open>Sequencing of steps that may throw.\<close>

definition then_do :: "'a thrown \<Rightarrow> ('a \<Rightarrow> 'b thrown) \<Rightarrow> 'b thrown" where
  "then_do m f = (case m of Inl e \<Rightarrow> Inl e | Inr x \<Rightarrow> f x)"

text \<open>
  Writing a property. The file is a module, so it runs in strict mode, where writing a
  property of a primitive throws as writing one of \<^verbatim>\<open>undefined\<close> does.
\<close>

definition cannot_set :: "val \<Rightarrow> string \<Rightarrow> val" where
  "cannot_set v k =
     new_Error ''TypeError''
       (''Cannot set properties of '' @ to_string v @ '' (setting '' @ k @ '')'')"

fun put_member :: "val \<Rightarrow> string \<Rightarrow> val \<Rightarrow> val thrown" where
  "put_member (Obj ps) k v = Inr (Obj (set_prop ps k v))"
| "put_member x k v = Inl (cannot_set x k)"

section \<open>SSRDataStore\<close>

record SSRDataStore =
  store :: "(string \<times> val) list"
  isServer :: bool

text \<open>The constructor; the argument says whether \<^verbatim>\<open>window\<close> is undefined.\<close>

definition new_SSRDataStore :: "bool \<Rightarrow> SSRDataStore" where
  "new_SSRDataStore server = \<lparr>store = [], isServer = server\<rparr>"

definition SSRDataStore_set :: "SSRDataStore \<Rightarrow> string \<Rightarrow> val \<Rightarrow> SSRDataStore" where
  "SSRDataStore_set s key data = s\<lparr>store := Map_set (store s) key data\<rparr>"

definition SSRDataStore_get :: "SSRDataStore \<Rightarrow> string \<Rightarrow> val" where
  "SSRDataStore_get s key = (case Map_get (store s) key of None \<Rightarrow> Undefined | Some v \<Rightarrow> v)"

definition SSRDataStore_has :: "SSRDataStore \<Rightarrow> string \<Rightarrow> bool" where
  "SSRDataStore_has s key = Map_has (store s) key"

definition getState :: "SSRDataStore \<Rightarrow> val" where
  "getState s = Object_fromEntries (store s)"

definition setState :: "SSRDataStore \<Rightarrow> val \<Rightarrow> SSRDataStore" where
  "setState s state =
     (if truthy state \<and> typeof state = ''object''
      then foldl (\<lambda>s' p. s'\<lparr>store := Map_set (store s') (fst p) (snd p)\<rparr>) s (Object_entries state)
      else s)"

definition clear :: "SSRDataStore \<Rightarrow> SSRDataStore" where
  "clear s = s\<lparr>store := []\<rparr>"

section \<open>The environment\<close>

text \<open>
  What \<^verbatim>\<open>fetch\<close> hands back: the status line, the headers (under lower-case names, as
  \<^verbatim>\<open>Headers\<close> keeps them), and what reading the body as JSON or as text gives.
\<close>

record response =
  status :: int
  statusText :: string
  response_headers :: "(string \<times> string) list"
  body_json :: "val thrown"
  body_text :: string

text \<open>\<^verbatim>\<open>response.ok\<close>\<close>

definition ok :: "response \<Rightarrow> bool" where
  "ok r = (200 \<le> status r \<and> status r \<le> 299)"

datatype fetch_outcome = Resolves response | Rejects val

text \<open>
  The state outside the client: the clock read by \<^verbatim>\<open>Date.now()\<close>, the calls made to
  \<^verbatim>\<open>fetch\<close> so far (URL and options), whether \<^verbatim>\<open>window\<close> is defined, and in a
  browser the stored \<^verbatim>\<open>auth_token\<close> and \<^verbatim>\<open>window.__SSR_DATA__\<close>.
\<close>

record world =
  now :: int
  calls :: "(string \<times> val) list"
  has_window :: bool
  auth_token :: val
  window_SSR_DATA :: val

text \<open>
  The built-in functions the code calls. The network is a script: the outcome of the
  \<open>n\<close>-th call to \<^verbatim>\<open>fetch\<close> and the milliseconds it takes to settle.
  \<open>URL_stamp u b t\<close> stands for \<^verbatim>\<open>new URL(u, b)\<close>, setting its search parameter
  \<^verbatim>\<open>_t\<close> to \<open>t\<close>, and \<^verbatim>\<open>toString()\<close>.
\<close>

record host =
  fetch :: "nat \<Rightarrow> string \<Rightarrow> val \<Rightarrow> int \<times> fetch_outcome"
  JSON_stringify :: "val \<Rightarrow> val"
  URL_stamp :: "val \<Rightarrow> val \<Rightarrow> int \<Rightarrow> val thrown"

section \<open>HttpClient\<close>

text \<open>
  An interceptor handler is a function of the value it is given; it may read the state
  outside the client. \<open>Inl\<close> is a throw or a rejected promise, \<open>Inr\<close> a returned value.
\<close>

type_synonym handler = "world \<Rightarrow> val \<Rightarrow> val thrown"

record interceptor =
  fulfilled :: "handler option"
  rejected :: "handler option"

record cache_entry =
  data :: val
  timestamp :: int

record HttpClient =
  baseURL :: string
  timeout :: int
  headers :: "(string \<times> val) list"
  request_interceptors :: "interceptor list"
  response_interceptors :: "interceptor list"
  cache :: "(string \<times> cache_entry) list"
  cacheTimeout :: int
  retryCount :: int
  retryDelay :: int

text \<open>The options of the constructor; \<open>None\<close> is an option that is not given.\<close>

record client_options =
  opt_baseURL :: "string option"
  opt_timeout :: "int option"
  opt_headers :: "(string \<times> val) list option"
  opt_cacheTimeout :: "int option"
  opt_retryCount :: "int option"
  opt_retryDelay :: "int option"

text \<open>\<^verbatim>\<open>options.x || d\<close> for a number and for a string\<close>

definition num_or :: "int option \<Rightarrow> int \<Rightarrow> int" where
  "num_or x d = (case x of None \<Rightarrow> d | Some n \<Rightarrow> if n \<noteq> 0 then n else d)"

definition str_or :: "string option \<Rightarrow> string \<Rightarrow> string" where
  "str_or x d = (case x of None \<Rightarrow> d | Some s \<Rightarrow> if s \<noteq> [] then s else d)"

definition new_HttpClient :: "client_options \<Rightarrow> HttpClient" where
  "new_HttpClient options =
     \<lparr>baseURL = str_or (opt_baseURL options) [],
      timeout = num_or (opt_timeout options) 10000,
      headers = (case opt_headers options of None \<Rightarrow> [] | Some hs \<Rightarrow> hs),
      request_interceptors = [],
      response_interceptors = [],
      cache = [],
      cacheTimeout = num_or (opt_cacheTimeout options) (5 * 60 * 1000),
      retryCount = num_or (opt_retryCount options) 3,
      retryDelay = num_or (opt_retryDelay options) 1000\<rparr>"

definition addRequestInterceptor :: "HttpClient \<Rightarrow> handler option \<Rightarrow> handler option \<Rightarrow> HttpClient" where
  "addRequestInterceptor c f r =
     c\<lparr>request_interceptors := request_interceptors c @ [\<lparr>fulfilled = f, rejected = r\<rparr>]\<rparr>"

definition addResponseInterceptor :: "HttpClient \<Rightarrow> handler option \<Rightarrow> handler option \<Rightarrow> HttpClient" where
  "addResponseInterceptor c f r =
     c\<lparr>response_interceptors := response_interceptors c @ [\<lparr>fulfilled = f, rejected = r\<rparr>]\<rparr>"

text \<open>
  The loop of \<^verbatim>\<open>processRequestInterceptors\<close> and \<^verbatim>\<open>processResponseInterceptors\<close>.
  When a stage's \<^verbatim>\<open>fulfilled\<close> throws, the loop is left by a throw in every case:
  \<^verbatim>\<open>throw await interceptor.rejected(error)\<close> throws what the handler returns, or what it
  throws itself.
\<close>

fun run_interceptors :: "world \<Rightarrow> interceptor list \<Rightarrow> val \<Rightarrow> val thrown" where
  "run_interceptors w [] v = Inr v"
| "run_interceptors w (i # rest) v =
     (case fulfilled i of
        None \<Rightarrow> run_interceptors w rest v
      | Some f \<Rightarrow>
          (case f w v of
             Inr v' \<Rightarrow> run_interceptors w rest v'
           | Inl error \<Rightarrow>
               (case rejected i of
                  Some r \<Rightarrow> (case r w error of Inl e \<Rightarrow> Inl e | Inr x \<Rightarrow> Inl x)
                | None \<Rightarrow> Inl error)))"

definition processRequestInterceptors :: "HttpClient \<Rightarrow> world \<Rightarrow> val \<Rightarrow> val thrown" where
  "processRequestInterceptors c w config =
     run_interceptors w (request_interceptors c) (Obj (spread [] config))"

definition processResponseInterceptors :: "HttpClient \<Rightarrow> world \<Rightarrow> val \<Rightarrow> val thrown" where
  "processResponseInterceptors c w response =
     run_interceptors w (response_interceptors c) response"

definition generateCacheKey :: "host \<Rightarrow> string \<Rightarrow> val \<Rightarrow> string thrown" where
  "generateCacheKey h url options =
     (case get_member options ''method'' of
        Inl e \<Rightarrow> Inl e
      | Inr m \<Rightarrow>
          (case get_member options ''body'' of
             Inl e \<Rightarrow> Inl e
           | Inr b \<Rightarrow>
               (let method = or_else m (Str ''GET'');
                    body = (if truthy b then JSON_stringify h b else Str [])
                in Inr (to_string method @ '':'' @ url @ '':'' @ to_string body))))"

definition getCache :: "HttpClient \<Rightarrow> string \<Rightarrow> world \<Rightarrow> val \<times> HttpClient" where
  "getCache c cacheKey w =
     (case Map_get (cache c) cacheKey of
        Some cached \<Rightarrow>
          if now w - timestamp cached < cacheTimeout c then (data cached, c)
          else (Null, c\<lparr>cache := Map_delete (cache c) cacheKey\<rparr>)
      | None \<Rightarrow> (Null, c\<lparr>cache := Map_delete (cache c) cacheKey\<rparr>))"

definition setCache :: "HttpClient \<Rightarrow> string \<Rightarrow> val \<Rightarrow> world \<Rightarrow> HttpClient" where
  "setCache c cacheKey d w =
     c\<lparr>cache := Map_set (cache c) cacheKey \<lparr>data = d, timestamp = now w\<rparr>\<rparr>"

text \<open>
  \<^verbatim>\<open>shouldRetry\<close>: \<^verbatim>\<open>includes\<close> is called on the message, which throws when the
  message is not a string: reading the method fails on \<^verbatim>\<open>undefined\<close> and
  \<^verbatim>\<open>null\<close>, and calling it fails on any other value.
\<close>

definition shouldRetry :: "val \<Rightarrow> bool thrown" where
  "shouldRetry error =
     (case get_member error ''name'' of
        Inl e \<Rightarrow> Inl e
      | Inr n \<Rightarrow>
          if n = Str ''AbortError'' then Inr True
          else (case get_member error ''message'' of
                  Inl e \<Rightarrow> Inl e
                | Inr (Str m) \<Rightarrow> Inr (str_includes m ''fetch'' \<or> str_includes m ''5'')
                | Inr x \<Rightarrow>
                    (case get_member x ''includes'' of
                       Inl e \<Rightarrow> Inl e
                     | Inr f \<Rightarrow>
                         Inl (new_Error ''TypeError''
                                ''error.message.includes is not a function''))))"

definition delay :: "int \<Rightarrow> world \<Rightarrow> world" where
  "delay ms w = w\<lparr>now := now w + max 0 ms\<rparr>"

text \<open>
  One call to \<^verbatim>\<open>fetch\<close> under the abort timer of \<^verbatim>\<open>requestWithRetry\<close>: a call that has
  not settled when the timer fires is rejected with an \<^verbatim>\<open>AbortError\<close>.
\<close>

definition AbortError :: val where
  "AbortError = new_Error ''AbortError'' ''The operation was aborted.''"

definition fetch_with_timeout :: "host \<Rightarrow> HttpClient \<Rightarrow> string \<Rightarrow> val \<Rightarrow> world \<Rightarrow> fetch_outcome \<times> world" where
  "fetch_with_timeout h c url options w =
     (let (d, out) = fetch h (length (calls w)) url options;
          w' = w\<lparr>calls := calls w @ [(url, options)]\<rparr>
      in if d < timeout c then (out, w'\<lparr>now := now w + max 0 d\<rparr>)
         else (Rejects AbortError, w'\<lparr>now := now w + max 0 (timeout c)\<rparr>))"

text \<open>The error thrown for a response that is not ok.\<close>

definition http_error :: "response \<Rightarrow> val" where
  "http_error r = new_Error ''Error'' (''HTTP '' @ num_to_string (status r) @ '': '' @ statusText r)"

text \<open>The body of the \<^verbatim>\<open>try\<close> block of \<^verbatim>\<open>requestWithRetry\<close>, for one attempt.\<close>

definition attempt :: "host \<Rightarrow> HttpClient \<Rightarrow> string \<Rightarrow> val \<Rightarrow> world \<Rightarrow> response thrown \<times> world" where
  "attempt h c url options w =
     (case fetch_with_timeout h c url options w of
        (Resolves r, w') \<Rightarrow> (if \<not> ok r then Inl (http_error r) else Inr r, w')
      | (Rejects e, w') \<Rightarrow> (Inl e, w'))"

function requestWithRetry ::
  "host \<Rightarrow> HttpClient \<Rightarrow> string \<Rightarrow> val \<Rightarrow> int \<Rightarrow> world \<Rightarrow> response thrown \<times> world" where
  "requestWithRetry h c url options rc w =
     (case attempt h c url options w of
        (Inr r, w') \<Rightarrow> (Inr r, w')
      | (Inl error, w') \<Rightarrow>
          if rc < retryCount c
          then (case shouldRetry error of
                  Inl e \<Rightarrow> (Inl e, w')
                | Inr True \<Rightarrow> requestWithRetry h c url options (rc + 1) (delay (retryDelay c) w')
                | Inr False \<Rightarrow> (Inl error, w'))
          else (Inl error, w'))"
  by pat_completeness auto
termination
  by (relation "measure (\<lambda>(h, c, url, options, rc, w). nat (retryCount c - rc))") auto

declare requestWithRetry.simps [simp del]

text \<open>\<^verbatim>\<open>response.headers.get(name)\<close>\<close>

definition headers_get :: "(string \<times> string) list \<Rightarrow> string \<Rightarrow> val" where
  "headers_get hs name = (case map_of hs name of None \<Rightarrow> Null | Some s \<Rightarrow> Str s)"

text \<open>The parsing of the response in \<^verbatim>\<open>request\<close>.\<close>

definition parse_response :: "response \<Rightarrow> val thrown" where
  "parse_response r =
     (let contentType = headers_get (response_headers r) ''content-type''
      in if truthy contentType \<and> str_includes (to_string contentType) ''application/json''
         then body_json r
         else Inr (Str (body_text r)))"

definition make_result :: "val \<Rightarrow> response \<Rightarrow> val \<Rightarrow> val" where
  "make_result d r config =
     Obj [(''data'', d),
          (''status'', Num (status r)),
          (''statusText'', Str (statusText r)),
          (''headers'', Obj (map (\<lambda>p. (fst p, Str (snd p))) (response_headers r))),
          (''config'', config)]"

definition fullUrl :: "HttpClient \<Rightarrow> string \<Rightarrow> string" where
  "fullUrl c url = (if startsWith url ''http'' then url else baseURL c @ url)"

text \<open>
  The object literal that \<^verbatim>\<open>request\<close> starts from. \<^verbatim>\<open>...options\<close> comes last, after
  the \<^verbatim>\<open>headers\<close> property holding the merged headers.
\<close>

definition initial_config :: "HttpClient \<Rightarrow> (string \<times> val) list \<Rightarrow> val" where
  "initial_config c options =
     Obj (spread
           [(''method'', Str ''GET''),
            (''headers'',
               Obj (spread
                     (spread [(''Content-Type'', Str ''application/json'')] (Obj (headers c)))
                     (own_prop options ''headers'')))]
           (Obj options))"

text \<open>\<^verbatim>\<open>config.method === 'GET' && config.cache !== false\<close>\<close>

definition cacheable :: "val \<Rightarrow> bool thrown" where
  "cacheable config =
     then_do (get_member config ''method'') (\<lambda>m.
       if m = Str ''GET''
       then then_do (get_member config ''cache'') (\<lambda>x. Inr (x \<noteq> Bool False))
       else Inr False)"

text \<open>The \<^verbatim>\<open>catch\<close> block of \<^verbatim>\<open>request\<close>: the value it throws.\<close>

definition request_catch :: "HttpClient \<Rightarrow> world \<Rightarrow> val \<Rightarrow> val \<Rightarrow> val" where
  "request_catch c w config error =
     (case processResponseInterceptors c w Null of
        Inl interceptorError \<Rightarrow> interceptorError
      | Inr x \<Rightarrow>
          (case get_member error ''message'' of
             Inl e \<Rightarrow> e
           | Inr m \<Rightarrow>
               (case get_member error ''status'' of
                  Inl e \<Rightarrow> e
                | Inr st \<Rightarrow>
                    Obj [(''message'', m),
                         (''status'', or_else st (Num 0)),
                         (''config'', config),
                         (''originalError'', error)])))"

text \<open>The \<^verbatim>\<open>try\<close> block of \<^verbatim>\<open>request\<close> with its \<^verbatim>\<open>catch\<close>.\<close>

definition request_send ::
  "host \<Rightarrow> HttpClient \<Rightarrow> string \<Rightarrow> val \<Rightarrow> world \<Rightarrow> val thrown \<times> HttpClient \<times> world" where
  "request_send h c url config w =
     (case requestWithRetry h c url config 0 w of
        (sent, w') \<Rightarrow>
          (case then_do sent (\<lambda>r.
                  then_do (parse_response r) (\<lambda>d.
                    processResponseInterceptors c w' (make_result d r config))) of
             Inl error \<Rightarrow> (Inl (request_catch c w' config error), c, w')
           | Inr processedResult \<Rightarrow>
               (case cacheable config of
                  Inl error \<Rightarrow> (Inl (request_catch c w' config error), c, w')
                | Inr False \<Rightarrow> (Inr processedResult, c, w')
                | Inr True \<Rightarrow>
                    (case generateCacheKey h url config of
                       Inl error \<Rightarrow> (Inl (request_catch c w' config error), c, w')
                     | Inr cacheKey \<Rightarrow>
                         (Inr processedResult, setCache c cacheKey processedResult w', w')))))"

definition request ::
  "host \<Rightarrow> HttpClient \<Rightarrow> string \<Rightarrow> (string \<times> val) list \<Rightarrow> world
     \<Rightarrow> val thrown \<times> HttpClient \<times> world" where
  "request h c url options w =
     (case processRequestInterceptors c w (initial_config c options) of
        Inl e \<Rightarrow> (Inl e, c, w)
      | Inr config \<Rightarrow>
          (case cacheable config of
             Inl e \<Rightarrow> (Inl e, c, w)
           | Inr False \<Rightarrow> request_send h c (fullUrl c url) config w
           | Inr True \<Rightarrow>
               (case generateCacheKey h (fullUrl c url) config of
                  Inl e \<Rightarrow> (Inl e, c, w)
                | Inr cacheKey \<Rightarrow>
                    (case getCache c cacheKey w of
                       (cachedResponse, c') \<Rightarrow>
                         if truthy cachedResponse then (Inr cachedResponse, c', w)
                         else request_send h c' (fullUrl c url) config w))))"

text \<open>The convenience methods.\<close>

definition HttpClient_get ::
  "host \<Rightarrow> HttpClient \<Rightarrow> string \<Rightarrow> (string \<times> val) list \<Rightarrow> world
     \<Rightarrow> val thrown \<times> HttpClient \<times> world" where
  "HttpClient_get h c url config w =
     request h c url (set_prop (spread [] (Obj config)) ''method'' (Str ''GET'')) w"

definition HttpClient_post ::
  "host \<Rightarrow> HttpClient \<Rightarrow> string \<Rightarrow> val \<Rightarrow> (string \<times> val) list \<Rightarrow> world
     \<Rightarrow> val thrown \<times> HttpClient \<times> world" where
  "HttpClient_post h c url d config w =
     request h c url
       (set_prop (set_prop (spread [] (Obj config)) ''method'' (Str ''POST''))
          ''body'' (JSON_stringify h d)) w"

definition HttpClient_put ::
  "host \<Rightarrow> HttpClient \<Rightarrow> string \<Rightarrow> val \<Rightarrow> (string \<times> val) list \<Rightarrow> world
     \<Rightarrow> val thrown \<times> HttpClient \<times> world" where
  "HttpClient_put h c url d config w =
     request h c url
       (set_prop (set_prop (spread [] (Obj config)) ''method'' (Str ''PUT''))
          ''body'' (JSON_stringify h d)) w"

definition HttpClient_delete ::
  "host \<Rightarrow> HttpClient \<Rightarrow> string \<Rightarrow> (string \<times> val) list \<Rightarrow> world
     \<Rightarrow> val thrown \<times> HttpClient \<times> world" where
  "HttpClient_delete h c url config w =
     request h c url (set_prop (spread [] (Obj config)) ''method'' (Str ''DELETE'')) w"

text \<open>The shape of the error object that the \<^verbatim>\<open>catch\<close> block of \<^verbatim>\<open>request\<close> builds.\<close>

definition is_NormalizedError :: "val \<Rightarrow> bool" where
  "is_NormalizedError v =
     (case v of
        Obj ps \<Rightarrow> map fst ps = [''message'', ''status'', ''config'', ''originalError'']
      | _ \<Rightarrow> False)"

text \<open>
  How the attempt that makes the \<open>n\<close>-th call to \<^verbatim>\<open>fetch\<close> ends: \<open>attempt\<close> run in a
  state where \<open>n\<close> calls have been made. An attempt is retryable when it throws an error
  that \<^verbatim>\<open>shouldRetry\<close> accepts.
\<close>

definition nth_attempt :: "host \<Rightarrow> HttpClient \<Rightarrow> string \<Rightarrow> val \<Rightarrow> nat \<Rightarrow> response thrown" where
  "nth_attempt h c url options n =
     fst (attempt h c url options
            \<lparr>now = 0, calls = replicate n (url, options), has_window = False,
             auth_token = Null, window_SSR_DATA = Undefined\<rparr>)"

definition retryable :: "response thrown \<Rightarrow> bool" where
  "retryable x = (case x of Inl error \<Rightarrow> shouldRetry error = Inr True | Inr r \<Rightarrow> False)"

section \<open>httpPlugin\<close>

definition getAuthToken :: "world \<Rightarrow> val" where
  "getAuthToken w = (if has_window w then auth_token w else Null)"

text \<open>
  The handlers of \<^verbatim>\<open>setupDefaultInterceptors\<close>. Logging is left out. The response
  handler for errors reads \<^verbatim>\<open>error.message\<close> and \<^verbatim>\<open>error.status\<close> and rejects with the
  error it was given; its call of \<^verbatim>\<open>clearAuthToken\<close> for status 401 is a write to the
  browser's storage that the handler type has no place for.
\<close>

definition default_request_fulfilled :: "host \<Rightarrow> handler" where
  "default_request_fulfilled h w config =
     then_do (get_member config ''method'') (\<lambda>m.
     then_do (get_member config ''timestamp'') (\<lambda>ts.
     then_do (if m = Str ''GET'' \<and> ts \<noteq> Bool False
              then then_do (get_member config ''url'') (\<lambda>u.
                   then_do (get_member config ''baseURL'') (\<lambda>b.
                   then_do (URL_stamp h (or_else u (Str [])) (or_else b (Str [])) (now w)) (\<lambda>s.
                     put_member config ''url'' s)))
              else Inr config) (\<lambda>config1.
       if truthy (getAuthToken w)
       then then_do (get_member config1 ''headers'') (\<lambda>hs.
            then_do (put_member hs ''Authorization''
                       (Str (''Bearer '' @ to_string (getAuthToken w)))) (\<lambda>hs'.
              put_member config1 ''headers'' hs'))
       else Inr config1)))"

definition default_request_rejected :: handler where
  "default_request_rejected w error = Inl error"

definition default_response_fulfilled :: handler where
  "default_response_fulfilled w response =
     then_do (get_member response ''status'') (\<lambda>st.
     then_do (get_member response ''config'') (\<lambda>cfg. Inr response))"

definition default_response_rejected :: handler where
  "default_response_rejected w error =
     then_do (get_member error ''message'') (\<lambda>m.
     then_do (get_member error ''status'') (\<lambda>st. Inl error))"

definition setupDefaultInterceptors :: "host \<Rightarrow> HttpClient \<Rightarrow> HttpClient" where
  "setupDefaultInterceptors h httpClient =
     addResponseInterceptor
       (addRequestInterceptor httpClient
          (Some (default_request_fulfilled h)) (Some default_request_rejected))
       (Some default_response_fulfilled) (Some default_response_rejected)"

text \<open>
  The module creates one \<^verbatim>\<open>SSRDataStore\<close> when it is loaded and keeps it in the constant
  \<^verbatim>\<open>ssrDataStore\<close>. Stores are objects, held by reference: the runtime maps addresses to
  stores, and the constant is an address.
\<close>

record runtime =
  stores :: "nat \<Rightarrow> SSRDataStore option"
  ssrDataStore :: nat
  global_SSR_DATA :: "nat option"

definition load_module :: "world \<Rightarrow> runtime" where
  "load_module w =
     \<lparr>stores = (\<lambda>a. None)(0 := Some (new_SSRDataStore (\<not> has_window w))),
      ssrDataStore = 0,
      global_SSR_DATA = None\<rparr>"

text \<open>What \<^verbatim>\<open>install\<close> mounts on the application: \<^verbatim>\<open>$http\<close> and \<^verbatim>\<open>$ssrData\<close>.\<close>

record app =
  app_http :: HttpClient
  app_ssrData :: nat

text \<open>A property of an object literal that a later \<^verbatim>\<open>...options\<close> may replace.\<close>

definition overridden :: "'a option \<Rightarrow> 'a \<Rightarrow> 'a option" where
  "overridden x d = (case x of None \<Rightarrow> Some d | Some v \<Rightarrow> Some v)"

definition install :: "host \<Rightarrow> runtime \<Rightarrow> world \<Rightarrow> client_options \<Rightarrow> app \<times> runtime" where
  "install h rt w options =
     (let httpClient = setupDefaultInterceptors h
            (new_HttpClient
               (options\<lparr>opt_baseURL := overridden (opt_baseURL options) (str_or (opt_baseURL options) ''/api''),
                        opt_timeout := overridden (opt_timeout options) (num_or (opt_timeout options) 10000),
                        opt_headers := overridden (opt_headers options)
                                         (case opt_headers options of None \<Rightarrow> [] | Some hs \<Rightarrow> hs)\<rparr>));
          mounted = \<lparr>app_http = httpClient, app_ssrData = ssrDataStore rt\<rparr>
      in if \<not> has_window w
         then (mounted, rt\<lparr>global_SSR_DATA := Some (ssrDataStore rt)\<rparr>)
         else if truthy (window_SSR_DATA w)
         then (mounted,
               rt\<lparr>stores := (stores rt)(ssrDataStore rt :=
                     map_option (\<lambda>s. setState s (window_SSR_DATA w)) (stores rt (ssrDataStore rt)))\<rparr>)
         else (mounted, rt))"

text \<open>The methods of a store, called through a reference to it.\<close>

definition ref_set :: "runtime \<Rightarrow> nat \<Rightarrow> string \<Rightarrow> val \<Rightarrow> runtime" where
  "ref_set rt a key d =
     rt\<lparr>stores := (stores rt)(a := map_option (\<lambda>s. SSRDataStore_set s key d) (stores rt a))\<rparr>"

definition ref_get :: "runtime \<Rightarrow> nat \<Rightarrow> string \<Rightarrow> val" where
  "ref_get rt a key = (case stores rt a of None \<Rightarrow> Undefined | Some s \<Rightarrow> SSRDataStore_get s key)"

definition ref_has :: "runtime \<Rightarrow> nat \<Rightarrow> string \<Rightarrow> bool" where
  "ref_has rt a key = (case stores rt a of None \<Rightarrow> False | Some s \<Rightarrow> SSRDataStore_has s key)"

section \<open>Example inputs\<close>

definition no_options :: client_options where
  "no_options =
     \<lparr>opt_baseURL = None, opt_timeout = None, opt_headers = None,
      opt_cacheTimeout = None, opt_retryCount = None, opt_retryDelay = None\<rparr>"

text \<open>A server process at time 0, before any call to \<^verbatim>\<open>fetch\<close>.\<close>

definition server_start :: world where
  "server_start =
     \<lparr>now = 0, calls = [], has_window = False, auth_token = Null, window_SSR_DATA = Undefined\<rparr>"

text \<open>A producer store after \<^verbatim>\<open>set('b', 1)\<close> and \<^verbatim>\<open>set('1', 2)\<close>.\<close>

definition producer :: SSRDataStore where
  "producer =
     SSRDataStore_set (SSRDataStore_set (new_SSRDataStore True) ''b'' (Num 1)) ''1'' (Num 2)"

text \<open>
  A client with two request interceptors: the first stage throws and has a handler that
  returns a substitute config, the second stage returns what it is given.
\<close>

definition recovering_client :: HttpClient where
  "recovering_client =
     addRequestInterceptor
       (addRequestInterceptor (new_HttpClient no_options)
          (Some (\<lambda>w config. Inl (new_Error ''Error'' ''boom'')))
          (Some (\<lambda>w error. Inr (Obj [(''method'', Str ''POST'')]))))
       (Some (\<lambda>w config. Inr config)) None"

text \<open>
  A client mounted by the plugin on the server, and a network that answers every call
  alike. The examples send no body and no \<^verbatim>\<open>GET\<close> through the plugin's request
  interceptor, so \<^verbatim>\<open>JSON.stringify\<close> and \<^verbatim>\<open>URL\<close> are never called in them.
\<close>

definition respond :: "int \<Rightarrow> string \<Rightarrow> response" where
  "respond code reason =
     \<lparr>status = code, statusText = reason,
      response_headers = [(''content-type'', ''application/json'')],
      body_json = Inr (Obj [(''id'', Num 1)]), body_text = ''{id:1}''\<rparr>"

definition always :: "response \<Rightarrow> host" where
  "always r =
     \<lparr>fetch = (\<lambda>n url options. (10, Resolves r)),
      JSON_stringify = (\<lambda>v. Undefined),
      URL_stamp = (\<lambda>u b t. Inl (new_Error ''TypeError'' ''Invalid URL''))\<rparr>"

definition plugin_client :: "host \<Rightarrow> HttpClient" where
  "plugin_client h =
     app_http (fst (install h (load_module server_start) server_start no_options))"

text \<open>A network whose first two calls outlast the timeout and whose third call succeeds.\<close>

definition third_time :: host where
  "third_time =
     \<lparr>fetch = (\<lambda>n url options.
                if n < 2 then (20000, Resolves (respond 200 ''OK''))
                else (10, Resolves (respond 200 ''OK''))),
      JSON_stringify = (\<lambda>v. Undefined),
      URL_stamp = (\<lambda>u b t. Inl (new_Error ''TypeError'' ''Invalid URL''))\<rparr>"

text \<open>A client after one successful \<^verbatim>\<open>GET /api/data\<close>, which the cache now holds.\<close>

definition warm_client :: HttpClient where
  "warm_client =
     fst (snd (request (always (respond 200 ''OK'')) (new_HttpClient no_options)
                 ''/api/data'' [] server_start))"

text \<open>A client with a time-to-live of 5000 ms, and its first \<^verbatim>\<open>GET /api/user\<close>.\<close>

definition short_lived :: HttpClient where
  "short_lived = new_HttpClient (no_options\<lparr>opt_cacheTimeout := Some 5000\<rparr>)"

definition ok_result :: val where
  "ok_result =
     Obj [(''data'', Obj [(''id'', Num 1)]),
          (''status'', Num 200),
          (''statusText'', Str ''OK''),
          (''headers'', Obj [(''content-type'', Str ''application/json'')]),
          (''config'',
             Obj [(''method'', Str ''GET''),
                  (''headers'', Obj [(''Content-Type'', Str ''application/json'')])])]"

definition after_first :: HttpClient where
  "after_first =
     short_lived\<lparr>cache := [(''GET:/api/user:'', \<lparr>data = ok_result, timestamp = 10\<rparr>)]\<rparr>"

text \<open>The state outside the client after that first call, and one second later.\<close>

definition first_done :: world where
  "first_done =
     server_start
       \<lparr>now := 10,
        calls := [(''/api/user'',
                   Obj [(''method'', Str ''GET''),
                        (''headers'', Obj [(''Content-Type'', Str ''application/json'')])])]\<rparr>"

definition one_second_later :: world where
  "one_second_later = first_done\<lparr>now := 1010\<rparr>"

text \<open>A client whose request interceptor rewrites \<^verbatim>\<open>config.url\<close> with a time stamp.\<close>

definition stamping_client :: HttpClient where
  "stamping_client =
     addRequestInterceptor (new_HttpClient (no_options\<lparr>opt_baseURL := Some ''/api''\<rparr>))
       (Some (\<lambda>w config. put_member config ''url'' (Str (''/other?_t='' @ num_to_string (now w)))))
       None"

text \<open>A client constructed with \<^verbatim>\<open>retryCount: 0\<close>, and the options \<^verbatim>\<open>retryCount: 2\<close>.\<close>

definition no_retries :: HttpClient where
  "no_retries = new_HttpClient (no_options\<lparr>opt_retryCount := Some 0\<rparr>)"

definition two_retries :: client_options where
  "two_retries = no_options\<lparr>opt_retryCount := Some 2\<rparr>"

text \<open>
  An endpoint that answers with the JSON number 0, a client whose response interceptor
  returns \<^verbatim>\<open>response.data\<close>, and that client and the state outside it after its first
  \<^verbatim>\<open>GET /api/count\<close>.
\<close>

definition count_response :: response where
  "count_response =
     \<lparr>status = 200, statusText = ''OK'',
      response_headers = [(''content-type'', ''application/json'')],
      body_json = Inr (Num 0), body_text = ''0''\<rparr>"

definition unwrapping_client :: HttpClient where
  "unwrapping_client =
     addResponseInterceptor (new_HttpClient no_options)
       (Some (\<lambda>w response. get_member response ''data'')) None"

definition cached_zero :: HttpClient where
  "cached_zero =
     unwrapping_client\<lparr>cache := [(''GET:/api/count:'', \<lparr>data = Num 0, timestamp = 10\<rparr>)]\<rparr>"

definition count_done :: world where
  "count_done =
     server_start
       \<lparr>now := 10,
        calls := [(''/api/count'',
                   Obj [(''method'', Str ''GET''),
                        (''headers'', Obj [(''Content-Type'', Str ''application/json'')])])]\<rparr>"

section \<open>Evaluation\<close>

lemmas val_defs = or_else_def num_to_string_def dec.simps digit_char_def is_digit_def
  dec_value_def Map_get_def Map_has_def Map_delete_def is_array_index_def own_entries_def
  set_prop_def spread_def Object_fromEntries_def new_Error_def cannot_read_def cannot_set_def
  own_prop_def then_do_def

lemmas store_defs = new_SSRDataStore_def SSRDataStore_set_def SSRDataStore_get_def
  SSRDataStore_has_def getState_def setState_def clear_def

lemmas client_defs = ok_def num_or_def str_or_def new_HttpClient_def addRequestInterceptor_def
  addResponseInterceptor_def processRequestInterceptors_def processResponseInterceptors_def
  generateCacheKey_def getCache_def setCache_def shouldRetry_def delay_def AbortError_def
  fetch_with_timeout_def http_error_def attempt_def headers_get_def parse_response_def
  make_result_def fullUrl_def initial_config_def cacheable_def request_catch_def
  request_send_def request_def no_options_def server_start_def

lemmas sample_defs = respond_def always_def

lemmas plugin_defs = getAuthToken_def default_request_fulfilled_def
  default_request_rejected_def default_response_fulfilled_def default_response_rejected_def
  setupDefaultInterceptors_def load_module_def overridden_def install_def ref_set_def
  ref_get_def ref_has_def

section \<open>Maps and objects\<close>

lemma Map_set_fresh: "k \<notin> fst ` set m \<Longrightarrow> Map_set m k v = m @ [(k, v)]"
  by (induction m) auto

lemma foldl_Map_set_distinct:
  "distinct (map fst (acc @ m)) \<Longrightarrow> foldl (\<lambda>ps p. Map_set ps (fst p) (snd p)) acc m = acc @ m"
proof (induction m arbitrary: acc)
  case Nil
  then show ?case by simp
next
  case (Cons p m)
  have "fst p \<notin> fst ` set acc" using Cons.prems by auto
  then have "Map_set acc (fst p) (snd p) = acc @ [p]" by (simp add: Map_set_fresh)
  moreover have "distinct (map fst ((acc @ [p]) @ m))" using Cons.prems by simp
  ultimately show ?case using Cons.IH [of "acc @ [p]"] by simp
qed

lemma map_of_Map_set: "map_of (Map_set m k v) = (map_of m)(k \<mapsto> v)"
  by (induction m) (auto simp: fun_eq_iff)

lemma keys_Map_set: "fst ` set (Map_set m k v) = insert k (fst ` set m)"
  by (induction m) auto

lemma distinct_Map_set: "distinct (map fst m) \<Longrightarrow> distinct (map fst (Map_set m k v))"
  by (induction m) (auto simp: keys_Map_set)

lemma set_own_entries: "set (own_entries ps) = set ps"
  by (auto simp: own_entries_def)

lemma distinct_own_entries:
  assumes d: "distinct (map fst ps)"
  shows "distinct (map fst (own_entries ps))"
proof -
  let ?f = "\<lambda>p::string \<times> val. is_array_index (fst p)"
  have others: "distinct (map fst (filter (\<lambda>p. \<not> ?f p) ps))"
    using d by (simp add: distinct_map_filter)
  have indices: "distinct (map fst (sort_key (\<lambda>p. dec_value (fst p)) (filter ?f ps)))"
  proof -
    have "distinct (map fst (filter ?f ps))" using d by (simp add: distinct_map_filter)
    then have "distinct (filter ?f ps)" "inj_on fst (set (filter ?f ps))"
      by (simp_all add: distinct_map)
    then show ?thesis by (simp add: distinct_map)
  qed
  have apart: "fst ` set (filter ?f ps) \<inter> fst ` set (filter (\<lambda>p. \<not> ?f p) ps) = {}"
    by auto
  show ?thesis unfolding own_entries_def using others indices apart by simp
qed

lemma map_of_own_entries:
  "distinct (map fst ps) \<Longrightarrow> map_of (own_entries ps) = map_of ps"
  by (rule map_of_inject_set [THEN iffD2]) (simp_all add: distinct_own_entries set_own_entries)

lemma own_entries_no_index:
  assumes "list_all (\<lambda>p. \<not> is_array_index (fst p)) ps"
  shows "own_entries ps = ps"
proof -
  have "filter (\<lambda>p. is_array_index (fst p)) ps = []"
    using assms by (simp add: list_all_iff filter_empty_conv)
  moreover have "filter (\<lambda>p. \<not> is_array_index (fst p)) ps = ps"
    using assms by (simp add: list_all_iff filter_id_conv)
  ultimately show ?thesis by (simp add: own_entries_def)
qed

section \<open>The data store across the hydration boundary\<close>

lemma foldl_store:
  "foldl (\<lambda>s' p. s'\<lparr>store := Map_set (store s') (fst p) (snd p)\<rparr>) s xs
   = s\<lparr>store := foldl (\<lambda>ps p. Map_set ps (fst p) (snd p)) (store s) xs\<rparr>"
  by (induction xs arbitrary: s) auto

text \<open>The keys of a store stay distinct, so its snapshot has the store's own entries.\<close>

lemma distinct_new_SSRDataStore: "distinct (map fst (store (new_SSRDataStore b)))"
  by (simp add: new_SSRDataStore_def)

lemma distinct_SSRDataStore_set:
  "distinct (map fst (store s)) \<Longrightarrow> distinct (map fst (store (SSRDataStore_set s k v)))"
  by (simp add: SSRDataStore_set_def distinct_Map_set)

lemma SSRDataStore_get_set:
  "SSRDataStore_get (SSRDataStore_set s k v) k' = (if k' = k then v else SSRDataStore_get s k')"
  by (simp add: SSRDataStore_get_def SSRDataStore_set_def Map_get_def map_of_Map_set)

lemma getState_distinct:
  "distinct (map fst (store p)) \<Longrightarrow> getState p = Obj (store p)"
  using foldl_Map_set_distinct [of "[]" "store p"]
  by (simp add: getState_def Object_fromEntries_def set_prop_def)

lemma store_roundtrip:
  assumes "distinct (map fst (store p))"
  shows "store (setState (new_SSRDataStore b) (getState p)) = own_entries (store p)"
proof -
  have "distinct (map fst ([] @ own_entries (store p)))"
    using assms by (simp add: distinct_own_entries)
  from foldl_Map_set_distinct [OF this] show ?thesis
    by (simp add: getState_distinct [OF assms] setState_def foldl_store new_SSRDataStore_def)
qed

text \<open>
  C9, as stated, fails: after \<^verbatim>\<open>set('b', 1)\<close> and \<^verbatim>\<open>set('1', 2)\<close> the producer holds
  \<open>b\<close> before \<open>1\<close>, and the consumer restored from \<^verbatim>\<open>getState()\<close> holds \<open>1\<close> before
  \<open>b\<close>: the snapshot is a plain object, which lists an array-index key first.
\<close>

theorem setState_getState_order_counterexample:
  "store producer = [(''b'', Num 1), (''1'', Num 2)]
   \<and> store (setState (new_SSRDataStore False) (getState producer)) = [(''1'', Num 2), (''b'', Num 1)]
   \<and> store (setState (new_SSRDataStore False) (getState producer)) \<noteq> store producer"
  by (simp add: producer_def store_defs val_defs)

text \<open>
  C9, amended: for every producer store, \<^verbatim>\<open>setState(producer.getState())\<close> on a fresh
  store gives a store with exactly the producer's key/value pairs, one per key with the
  value written last, none dropped: \<^verbatim>\<open>get\<close> and \<^verbatim>\<open>has\<close> agree with the producer on
  every key. The entries come in the order in which the snapshot object lists them: the
  keys that are array indices first, in ascending numeric order, then the other keys in
  the producer's insertion order. When no key is an array index, that is the producer's
  insertion order.
\<close>

theorem setState_getState_roundtrip:
  assumes "distinct (map fst (store p))"
  shows "store (setState (new_SSRDataStore b) (getState p)) = own_entries (store p)
       \<and> (\<forall>k. SSRDataStore_get (setState (new_SSRDataStore b) (getState p)) k = SSRDataStore_get p k
             \<and> SSRDataStore_has (setState (new_SSRDataStore b) (getState p)) k = SSRDataStore_has p k)
       \<and> (list_all (\<lambda>e. \<not> is_array_index (fst e)) (store p)
            \<longrightarrow> store (setState (new_SSRDataStore b) (getState p)) = store p)"
  using assms
  by (simp add: store_roundtrip SSRDataStore_get_def SSRDataStore_has_def Map_get_def Map_has_def
      map_of_own_entries own_entries_no_index)

theorem setState_getState_roundtrip_witness:
  "distinct (map fst (store producer))
   \<and> store (setState (new_SSRDataStore False) (getState producer)) = own_entries (store producer)
   \<and> SSRDataStore_get (setState (new_SSRDataStore False) (getState producer)) ''1'' = Num 2
   \<and> SSRDataStore_has (setState (new_SSRDataStore False) (getState producer)) ''b''"
  using setState_getState_roundtrip [of producer False]
  by (simp add: producer_def store_defs val_defs)

section \<open>Interceptor chains\<close>

lemma run_interceptors_append:
  "run_interceptors w (pre @ post) v =
     (case run_interceptors w pre v of Inl e \<Rightarrow> Inl e | Inr v1 \<Rightarrow> run_interceptors w post v1)"
  by (induction pre arbitrary: v) (auto split: option.splits sum.splits)

text \<open>
  C3, as stated, fails: the first stage of \<open>recovering_client\<close> throws and its handler
  returns a substitute config, yet the chain does not resume with the second stage; the
  substitute is thrown to the caller.
\<close>

theorem interceptor_recovery_counterexample:
  "processRequestInterceptors recovering_client server_start (Obj [])
     = Inl (Obj [(''method'', Str ''POST'')])
   \<and> processRequestInterceptors recovering_client server_start (Obj [])
     \<noteq> Inr (Obj [(''method'', Str ''POST'')])"
  by (simp add: recovering_client_def client_defs val_defs)

text \<open>
  C3, amended: for every interceptor stage whose processing throws, the chain halts and
  the remaining stages do not run. If the stage has a rejected handler, the handler is
  called with the error, and what it returns, or what it throws, is thrown to the caller;
  if it has none, the error itself is thrown. No handler makes the chain resume.
\<close>

theorem interceptor_failure_halts:
  assumes "run_interceptors w pre v = Inr v1" and "fulfilled i = Some f" and "f w v1 = Inl error"
  shows "run_interceptors w (pre @ i # rest) v =
           Inl (case rejected i of
                  None \<Rightarrow> error
                | Some r \<Rightarrow> (case r w error of Inl e \<Rightarrow> e | Inr x \<Rightarrow> x))"
  using assms by (simp add: run_interceptors_append split: option.splits sum.splits)

theorem interceptor_failure_halts_witness:
  "run_interceptors server_start [] (Obj []) = Inr (Obj [])
   \<and> run_interceptors server_start
       ([] @ \<lparr>fulfilled = Some (\<lambda>w config. Inl (Str ''boom'')),
               rejected = Some (\<lambda>w error. Inr (Str ''substitute''))\<rparr>
           # [\<lparr>fulfilled = Some (\<lambda>w config. Inr config), rejected = None\<rparr>])
       (Obj [])
     = Inl (Str ''substitute'')"
  using interceptor_failure_halts
    [of server_start "[]" "Obj []" "Obj []"
        "\<lparr>fulfilled = Some (\<lambda>w config. Inl (Str ''boom'')),
          rejected = Some (\<lambda>w error. Inr (Str ''substitute''))\<rparr>"
        "\<lambda>w config. Inl (Str ''boom'')" "Str ''boom''"
        "[\<lparr>fulfilled = Some (\<lambda>w config. Inr config), rejected = None\<rparr>]"]
  by simp

section \<open>One store for every installation\<close>

lemma install_store_ref:
  "app_ssrData (fst (install h rt w options)) = ssrDataStore rt"
  "ssrDataStore (snd (install h rt w options)) = ssrDataStore rt"
  "stores rt (ssrDataStore rt) \<noteq> None \<Longrightarrow>
     stores (snd (install h rt w options)) (ssrDataStore rt) \<noteq> None"
  by (simp_all add: install_def Let_def)

lemma ref_get_set:
  "stores rt a \<noteq> None \<Longrightarrow> ref_get (ref_set rt a k v) a k = v"
  "stores rt a \<noteq> None \<Longrightarrow> ref_has (ref_set rt a k v) a k"
  by (auto simp: ref_get_def ref_set_def ref_has_def SSRDataStore_get_def SSRDataStore_has_def
      SSRDataStore_set_def Map_get_def Map_has_def map_of_Map_set)

text \<open>
  C6, as stated, fails: after two installations in one process, \<^verbatim>\<open>set('user', 1)\<close>
  through the store mounted by the first is seen by \<^verbatim>\<open>has('user')\<close> and
  \<^verbatim>\<open>get('user')\<close> through the store mounted by the second.
\<close>

theorem installs_share_store_counterexample:
  "ref_has
     (ref_set
        (snd (install (always (respond 200 ''OK''))
                (snd (install (always (respond 200 ''OK'')) (load_module server_start)
                        server_start no_options))
                server_start no_options))
        (app_ssrData (fst (install (always (respond 200 ''OK'')) (load_module server_start)
                             server_start no_options)))
        ''user'' (Num 1))
     (app_ssrData (fst (install (always (respond 200 ''OK''))
                (snd (install (always (respond 200 ''OK'')) (load_module server_start)
                        server_start no_options))
                server_start no_options)))
     ''user''"
  by (simp add: sample_defs plugin_defs store_defs val_defs client_defs)

text \<open>
  C6, amended: every installation mounts the one Data Store that the module created when
  it was loaded (on the server it is also put in \<^verbatim>\<open>global.__SSR_DATA__\<close>). For every
  two installations in one process, a key written with \<^verbatim>\<open>set\<close> through the store of
  one is returned by \<^verbatim>\<open>get\<close> and reported by \<^verbatim>\<open>has\<close> through the store of the other.
\<close>

theorem installs_share_store:
  assumes "stores rt (ssrDataStore rt) \<noteq> None"
  shows "app_ssrData (fst (install h1 rt w1 o1)) = ssrDataStore rt
     \<and> app_ssrData (fst (install h2 (snd (install h1 rt w1 o1)) w2 o2)) = ssrDataStore rt
     \<and> ref_get (ref_set (snd (install h2 (snd (install h1 rt w1 o1)) w2 o2))
                  (app_ssrData (fst (install h1 rt w1 o1))) k v)
               (app_ssrData (fst (install h2 (snd (install h1 rt w1 o1)) w2 o2))) k = v
     \<and> ref_has (ref_set (snd (install h2 (snd (install h1 rt w1 o1)) w2 o2))
                  (app_ssrData (fst (install h1 rt w1 o1))) k v)
               (app_ssrData (fst (install h2 (snd (install h1 rt w1 o1)) w2 o2))) k"
proof -
  let ?rt1 = "snd (install h1 rt w1 o1)"
  let ?rt2 = "snd (install h2 ?rt1 w2 o2)"
  have first: "stores ?rt1 (ssrDataStore ?rt1) \<noteq> None"
    using assms by (simp add: install_store_ref)
  have "stores ?rt2 (ssrDataStore rt) \<noteq> None"
    using install_store_ref(3) [OF first, of h2 w2 o2] by (simp add: install_store_ref)
  then show ?thesis by (simp add: install_store_ref ref_get_set)
qed

theorem installs_share_store_witness:
  "stores (load_module server_start) (ssrDataStore (load_module server_start)) \<noteq> None
   \<and> ref_get
       (ref_set
          (snd (install (always (respond 200 ''OK''))
                  (snd (install (always (respond 200 ''OK'')) (load_module server_start)
                          server_start no_options))
                  server_start no_options))
          (app_ssrData (fst (install (always (respond 200 ''OK'')) (load_module server_start)
                               server_start no_options)))
          ''user'' (Num 1))
       (app_ssrData (fst (install (always (respond 200 ''OK''))
                  (snd (install (always (respond 200 ''OK'')) (load_module server_start)
                          server_start no_options))
                  server_start no_options)))
       ''user'' = Num 1"
proof -
  have loaded: "stores (load_module server_start) (ssrDataStore (load_module server_start)) \<noteq> None"
    by (simp add: load_module_def)
  from installs_share_store [OF loaded] loaded show ?thesis by blast
qed

section \<open>Retries\<close>

lemma attempt_calls: "calls (snd (attempt h c url options w)) = calls w @ [(url, options)]"
  by (simp add: attempt_def fetch_with_timeout_def Let_def split: prod.splits fetch_outcome.splits)

lemma attempt_fst:
  "fst (attempt h c url options w) = nth_attempt h c url options (length (calls w))"
  by (simp add: nth_attempt_def attempt_def fetch_with_timeout_def Let_def
      split: prod.splits fetch_outcome.splits)

lemma calls_delay: "calls (delay ms w) = calls w"
  by (simp add: delay_def)

lemma requestWithRetry_fail_step:
  assumes "retryable (nth_attempt h c url options (length (calls w)))" and "rc < retryCount c"
  shows "requestWithRetry h c url options rc w =
           requestWithRetry h c url options (rc + 1)
             (delay (retryDelay c) (snd (attempt h c url options w)))"
proof -
  obtain x w' where a: "attempt h c url options w = (x, w')"
    by (cases "attempt h c url options w")
  then have "retryable x" using assms(1) attempt_fst [of h c url options w] by simp
  then obtain e where "x = Inl e" "shouldRetry e = Inr True"
    by (auto simp: retryable_def split: sum.splits)
  then show ?thesis using a assms(2)
    by (subst requestWithRetry.simps) simp
qed

text \<open>After \<open>k\<close> retryable failures within the budget, \<open>k\<close> calls have been made.\<close>

lemma requestWithRetry_failures:
  assumes "\<forall>n<k. retryable (nth_attempt h c url options (length (calls w) + n))"
    and "rc + int k \<le> retryCount c"
  shows "\<exists>w'. calls w' = calls w @ replicate k (url, options)
             \<and> requestWithRetry h c url options rc w
                 = requestWithRetry h c url options (rc + int k) w'"
  using assms
proof (induction k arbitrary: rc w)
  case 0
  then show ?case by auto
next
  case (Suc k)
  let ?w1 = "delay (retryDelay c) (snd (attempt h c url options w))"
  have c1: "calls ?w1 = calls w @ [(url, options)]" by (simp add: calls_delay attempt_calls)
  have first: "retryable (nth_attempt h c url options (length (calls w)))"
    using Suc.prems(1) by (metis add.right_neutral zero_less_Suc)
  have step: "requestWithRetry h c url options rc w
                = requestWithRetry h c url options (rc + 1) ?w1"
    using first Suc.prems(2) by (intro requestWithRetry_fail_step) auto
  have later: "\<forall>n<k. retryable (nth_attempt h c url options (length (calls ?w1) + n))"
  proof (intro allI impI)
    fix n assume "n < k"
    then have "Suc n < Suc k" by simp
    then have "retryable (nth_attempt h c url options (length (calls w) + Suc n))"
      using Suc.prems(1) by blast
    then show "retryable (nth_attempt h c url options (length (calls ?w1) + n))"
      by (simp add: c1)
  qed
  have "rc + 1 + int k \<le> retryCount c" using Suc.prems(2) by simp
  from Suc.IH [OF later this] obtain w' where
    w': "calls w' = calls ?w1 @ replicate k (url, options)"
        "requestWithRetry h c url options (rc + 1) ?w1
           = requestWithRetry h c url options (rc + 1 + int k) w'"
    by blast
  have "calls w' = calls w @ replicate (Suc k) (url, options)"
    using w'(1) c1 by (simp add: replicate_app_Cons_same)
  moreover have "rc + 1 + int k = rc + int (Suc k)" by simp
  then have "requestWithRetry h c url options rc w
               = requestWithRetry h c url options (rc + int (Suc k)) w'"
    using step w'(2) by metis
  ultimately show ?case by blast
qed

lemma requestWithRetry_last:
  assumes "nth_attempt h c url options (length (calls w)) = Inl e" and "\<not> rc < retryCount c"
  shows "requestWithRetry h c url options rc w = (Inl e, snd (attempt h c url options w))"
proof -
  obtain x w' where a: "attempt h c url options w = (x, w')"
    by (cases "attempt h c url options w")
  then have "x = Inl e" using assms(1) attempt_fst [of h c url options w] by simp
  then show ?thesis using a assms(2) by (subst requestWithRetry.simps) simp
qed

lemma requestWithRetry_success:
  assumes "nth_attempt h c url options (length (calls w)) = Inr r"
  shows "requestWithRetry h c url options rc w = (Inr r, snd (attempt h c url options w))"
proof -
  obtain x w' where a: "attempt h c url options w = (x, w')"
    by (cases "attempt h c url options w")
  then have "x = Inr r" using assms(1) attempt_fst [of h c url options w] by simp
  then show ?thesis using a by (subst requestWithRetry.simps) simp
qed

lemma requestWithRetry_exhausted:
  assumes "0 \<le> retryCount c"
    and "\<forall>n \<le> nat (retryCount c). retryable (nth_attempt h c url options (length (calls w) + n))"
  shows "fst (requestWithRetry h c url options 0 w)
           = nth_attempt h c url options (length (calls w) + nat (retryCount c))
       \<and> calls (snd (requestWithRetry h c url options 0 w))
           = calls w @ replicate (1 + nat (retryCount c)) (url, options)"
proof -
  let ?k = "nat (retryCount c)"
  from assms(2) have "\<forall>n<?k. retryable (nth_attempt h c url options (length (calls w) + n))"
    by simp
  moreover have "0 + int ?k \<le> retryCount c" using assms(1) by simp
  ultimately obtain w' where
    w': "calls w' = calls w @ replicate ?k (url, options)"
        "requestWithRetry h c url options 0 w = requestWithRetry h c url options (0 + int ?k) w'"
    using requestWithRetry_failures by blast
  from assms(2) have "retryable (nth_attempt h c url options (length (calls w) + ?k))" by blast
  then have "retryable (nth_attempt h c url options (length (calls w')))" using w'(1) by simp
  then obtain e where e: "nth_attempt h c url options (length (calls w')) = Inl e"
    by (auto simp: retryable_def split: sum.splits)
  have "\<not> (0 + int ?k) < retryCount c" using assms(1) by simp
  from requestWithRetry_last [OF e this]
  have res: "requestWithRetry h c url options 0 w = (Inl e, snd (attempt h c url options w'))"
    using w'(2) by simp
  have "fst (requestWithRetry h c url options 0 w)
        = nth_attempt h c url options (length (calls w) + nat (retryCount c))"
    using res e w'(1) by simp
  moreover have "calls (snd (requestWithRetry h c url options 0 w))
        = calls w @ replicate (1 + nat (retryCount c)) (url, options)"
    using res w'(1) by (simp add: attempt_calls replicate_append_same)
  ultimately show ?thesis by blast
qed

lemma requestWithRetry_recovers:
  assumes "int k \<le> retryCount c"
    and "\<forall>n<k. retryable (nth_attempt h c url options (length (calls w) + n))"
    and "nth_attempt h c url options (length (calls w) + k) = Inr r"
  shows "fst (requestWithRetry h c url options 0 w) = Inr r
       \<and> calls (snd (requestWithRetry h c url options 0 w))
           = calls w @ replicate (k + 1) (url, options)"
proof -
  have "0 + int k \<le> retryCount c" using assms(1) by simp
  with assms(2) obtain w' where
    w': "calls w' = calls w @ replicate k (url, options)"
        "requestWithRetry h c url options 0 w = requestWithRetry h c url options (0 + int k) w'"
    using requestWithRetry_failures by blast
  have "nth_attempt h c url options (length (calls w')) = Inr r" using assms(3) w'(1) by simp
  from requestWithRetry_success [OF this]
  have res: "requestWithRetry h c url options 0 w = (Inr r, snd (attempt h c url options w'))"
    using w'(2) by simp
  then show ?thesis using w'(1) by (simp add: attempt_calls replicate_append_same)
qed

lemma retryCount_configured:
  assumes "c = (new_HttpClient options)
                 \<lparr>request_interceptors := ris, response_interceptors := pis, cache := m\<rparr>"
    and "budget = (case opt_retryCount options of None \<Rightarrow> 3 | Some n \<Rightarrow> n)"
    and "0 < budget"
  shows "retryCount c = budget"
  using assms by (auto simp: new_HttpClient_def num_or_def split: option.splits)

text \<open>
  C7, as stated, fails: a client constructed with \<^verbatim>\<open>retryCount: 0\<close> has the retry
  count 3, since the constructor reads a zero option as an option that is not given.
  When every attempt fails with the retryable error of a 503 response, the call makes
  4 attempts, not \<open>1 + 0\<close>.
\<close>

theorem zero_retryCount_counterexample:
  "opt_retryCount (no_options\<lparr>opt_retryCount := Some 0\<rparr>) = Some 0
   \<and> shouldRetry (http_error (respond 503 ''Service Unavailable'')) = Inr True
   \<and> fst (requestWithRetry (always (respond 503 ''Service Unavailable'')) no_retries
            ''/api/user'' (Obj []) 0 server_start)
       = Inl (http_error (respond 503 ''Service Unavailable''))
   \<and> length (calls (snd (requestWithRetry (always (respond 503 ''Service Unavailable''))
            no_retries ''/api/user'' (Obj []) 0 server_start))) = 4
   \<and> length (calls (snd (requestWithRetry (always (respond 503 ''Service Unavailable''))
            no_retries ''/api/user'' (Obj []) 0 server_start))) \<noteq> 1 + 0"
  by (simp add: no_retries_def sample_defs client_defs val_defs requestWithRetry.simps)

text \<open>
  C7, amended: take a client constructed with a positive \<^verbatim>\<open>retryCount\<close> option, or
  with none, which counts as 3. When the \<open>1 + retryCount\<close> attempts of a call all fail
  with retryable errors, \<^verbatim>\<open>requestWithRetry\<close> calls \<^verbatim>\<open>fetch\<close> exactly
  \<open>1 + retryCount\<close> times and throws the error of the last attempt; when the first
  \<open>k\<close> attempts fail with retryable errors and the next one succeeds, with
  \<open>k \<le> retryCount\<close>, it calls \<^verbatim>\<open>fetch\<close> exactly \<open>k + 1\<close> times and returns that
  response. Only the attempts that the call makes are assumed to fail.
\<close>

theorem retry_attempts:
  assumes "c = (new_HttpClient options)
                 \<lparr>request_interceptors := ris, response_interceptors := pis, cache := m\<rparr>"
    and "budget = (case opt_retryCount options of None \<Rightarrow> 3 | Some n \<Rightarrow> n)"
    and "0 < budget"
  shows "((\<forall>n \<le> nat budget. retryable (nth_attempt h c url config (length (calls w) + n))) \<longrightarrow>
            fst (requestWithRetry h c url config 0 w)
              = nth_attempt h c url config (length (calls w) + nat budget)
            \<and> calls (snd (requestWithRetry h c url config 0 w))
              = calls w @ replicate (1 + nat budget) (url, config))
       \<and> (\<forall>k r. int k \<le> budget
              \<and> (\<forall>n<k. retryable (nth_attempt h c url config (length (calls w) + n)))
              \<and> nth_attempt h c url config (length (calls w) + k) = Inr r \<longrightarrow>
            fst (requestWithRetry h c url config 0 w) = Inr r
            \<and> calls (snd (requestWithRetry h c url config 0 w))
              = calls w @ replicate (k + 1) (url, config))"
proof -
  have field: "retryCount c = budget" using assms by (rule retryCount_configured)
  then have nonneg: "0 \<le> retryCount c" using assms(3) by simp
  have exhausted:
    "fst (requestWithRetry h c url config 0 w)
       = nth_attempt h c url config (length (calls w) + nat budget)
     \<and> calls (snd (requestWithRetry h c url config 0 w))
       = calls w @ replicate (1 + nat budget) (url, config)"
    if "\<forall>n \<le> nat budget. retryable (nth_attempt h c url config (length (calls w) + n))"
    using requestWithRetry_exhausted [OF nonneg, of h url config w] that field by simp
  have recovers:
    "fst (requestWithRetry h c url config 0 w) = Inr r
     \<and> calls (snd (requestWithRetry h c url config 0 w))
       = calls w @ replicate (k + 1) (url, config)"
    if "int k \<le> budget
        \<and> (\<forall>n<k. retryable (nth_attempt h c url config (length (calls w) + n)))
        \<and> nth_attempt h c url config (length (calls w) + k) = Inr r" for k r
    using requestWithRetry_recovers [of k c h url config w r] that field by blast
  show ?thesis using exhausted recovers by blast
qed

theorem retry_attempts_witness:
  "opt_retryCount two_retries = Some 2
   \<and> retryable (nth_attempt (always (respond 503 ''Service Unavailable''))
                  (new_HttpClient two_retries) ''/api/user'' (Obj []) 0)
   \<and> retryable (nth_attempt (always (respond 503 ''Service Unavailable''))
                  (new_HttpClient two_retries) ''/api/user'' (Obj []) 1)
   \<and> retryable (nth_attempt (always (respond 503 ''Service Unavailable''))
                  (new_HttpClient two_retries) ''/api/user'' (Obj []) 2)
   \<and> fst (requestWithRetry (always (respond 503 ''Service Unavailable''))
            (new_HttpClient two_retries) ''/api/user'' (Obj []) 0 server_start)
       = Inl (http_error (respond 503 ''Service Unavailable''))
   \<and> length (calls (snd (requestWithRetry (always (respond 503 ''Service Unavailable''))
            (new_HttpClient two_retries) ''/api/user'' (Obj []) 0 server_start))) = 3
   \<and> opt_retryCount no_options = None
   \<and> retryable (nth_attempt third_time (new_HttpClient no_options) ''/api/user'' (Obj []) 0)
   \<and> retryable (nth_attempt third_time (new_HttpClient no_options) ''/api/user'' (Obj []) 1)
   \<and> nth_attempt third_time (new_HttpClient no_options) ''/api/user'' (Obj []) 2
       = Inr (respond 200 ''OK'')
   \<and> fst (requestWithRetry third_time (new_HttpClient no_options) ''/api/user'' (Obj []) 0
            server_start)
       = Inr (respond 200 ''OK'')
   \<and> length (calls (snd (requestWithRetry third_time (new_HttpClient no_options) ''/api/user''
            (Obj []) 0 server_start))) = 3"
proof -
  let ?c2 = "new_HttpClient two_retries"
  let ?c = "new_HttpClient no_options"
  let ?down = "always (respond 503 ''Service Unavailable'')"
  have built2: "?c2 = (new_HttpClient two_retries)
                  \<lparr>request_interceptors := [], response_interceptors := [], cache := []\<rparr>"
    by (simp add: new_HttpClient_def)
  have built: "?c = (new_HttpClient no_options)
                  \<lparr>request_interceptors := [], response_interceptors := [], cache := []\<rparr>"
    by (simp add: new_HttpClient_def)
  have two: "(2::int) = (case opt_retryCount two_retries of None \<Rightarrow> 3 | Some n \<Rightarrow> n)"
    by (simp add: two_retries_def no_options_def)
  have three: "(3::int) = (case opt_retryCount no_options of None \<Rightarrow> 3 | Some n \<Rightarrow> n)"
    by (simp add: no_options_def)
  have positive: "(0::int) < 2" "(0::int) < 3" by simp_all
  have start: "calls server_start = []" by (simp add: server_start_def)
  have down: "nth_attempt ?down ?c2 ''/api/user'' (Obj []) n
                = Inl (http_error (respond 503 ''Service Unavailable''))" for n
    by (simp add: nth_attempt_def two_retries_def sample_defs client_defs)
  have down_retryable: "retryable (Inl (http_error (respond 503 ''Service Unavailable'')))"
    by (simp add: retryable_def sample_defs client_defs val_defs)
  have all_down: "\<forall>n \<le> nat 2. retryable (nth_attempt ?down ?c2 ''/api/user'' (Obj [])
                                    (length (calls server_start) + n))"
    using down down_retryable by simp
  from retry_attempts [OF built2 two positive(1), of ?down "''/api/user''" "Obj []" server_start] all_down
  have "fst (requestWithRetry ?down ?c2 ''/api/user'' (Obj []) 0 server_start)
          = nth_attempt ?down ?c2 ''/api/user'' (Obj []) (length (calls server_start) + nat 2)
        \<and> calls (snd (requestWithRetry ?down ?c2 ''/api/user'' (Obj []) 0 server_start))
          = calls server_start @ replicate (1 + nat 2) (''/api/user'', Obj [])"
    by simp
  then have exhausted:
    "fst (requestWithRetry ?down ?c2 ''/api/user'' (Obj []) 0 server_start)
       = Inl (http_error (respond 503 ''Service Unavailable''))"
    "length (calls (snd (requestWithRetry ?down ?c2 ''/api/user'' (Obj []) 0 server_start))) = 3"
    using down start by simp_all
  have slow: "nth_attempt third_time ?c ''/api/user'' (Obj []) n = Inl AbortError" if "n < 2" for n
    using that by (simp add: nth_attempt_def third_time_def sample_defs client_defs)
  have abort_retryable: "retryable (Inl AbortError)"
    by (simp add: retryable_def client_defs val_defs)
  have third: "nth_attempt third_time ?c ''/api/user'' (Obj []) 2 = Inr (respond 200 ''OK'')"
    by (simp add: nth_attempt_def third_time_def sample_defs client_defs)
  have two_slow: "\<forall>n<2. retryable (nth_attempt third_time ?c ''/api/user'' (Obj []) n)"
    using slow abort_retryable by simp
  have given:
    "int 2 \<le> 3
     \<and> (\<forall>n<2. retryable (nth_attempt third_time ?c ''/api/user'' (Obj [])
                           (length (calls server_start) + n)))
     \<and> nth_attempt third_time ?c ''/api/user'' (Obj []) (length (calls server_start) + 2)
         = Inr (respond 200 ''OK'')"
    using two_slow third start by (simp del: add_2_eq_Suc add_2_eq_Suc')
  from retry_attempts [OF built three positive(2), of third_time "''/api/user''" "Obj []" server_start] given
  have "fst (requestWithRetry third_time ?c ''/api/user'' (Obj []) 0 server_start)
          = Inr (respond 200 ''OK'')
        \<and> calls (snd (requestWithRetry third_time ?c ''/api/user'' (Obj []) 0 server_start))
          = calls server_start @ replicate (2 + 1) (''/api/user'', Obj [])"
    by blast
  then have recovered:
    "fst (requestWithRetry third_time ?c ''/api/user'' (Obj []) 0 server_start)
       = Inr (respond 200 ''OK'')"
    "length (calls (snd (requestWithRetry third_time ?c ''/api/user'' (Obj []) 0 server_start))) = 3"
    using start by simp_all
  have configured: "opt_retryCount two_retries = Some 2" "opt_retryCount no_options = None"
    by (simp_all add: two_retries_def no_options_def)
  have "retryable (nth_attempt third_time ?c ''/api/user'' (Obj []) 0)"
    and "retryable (nth_attempt third_time ?c ''/api/user'' (Obj []) 1)"
    using two_slow by simp_all
  then show ?thesis
    using configured down down_retryable exhausted third recovered by simp
qed


section \<open>Failing inputs\<close>

text \<open>
  C1 at a failing input: a client mounted by the plugin on the server sends
  \<^verbatim>\<open>delete('/user/123')\<close> and the server answers 404. The \<^verbatim>\<open>catch\<close> block runs the
  response interceptors on \<^verbatim>\<open>null\<close>, not on the error; the plugin's own response
  interceptor reads \<^verbatim>\<open>response.status\<close> of it, and the \<^verbatim>\<open>TypeError\<close> of that read is what
  the caller gets, in place of the error object with message, status, config and cause.
\<close>

theorem failed_request_surfaces_TypeError:
  "fst (HttpClient_delete (always (respond 404 ''Not Found''))
          (plugin_client (always (respond 404 ''Not Found''))) ''/user/123'' [] server_start)
     = Inl (cannot_read Null ''status'')
   \<and> \<not> is_NormalizedError (cannot_read Null ''status'')"
  by (simp add: HttpClient_delete_def is_NormalizedError_def plugin_client_def sample_defs plugin_defs client_defs val_defs
      requestWithRetry.simps)

text \<open>
  C2 at a failing input: the error made for a 405 response has the message
  \<^verbatim>\<open>HTTP 405: Method Not Allowed\<close>, which contains the character 5, so
  \<^verbatim>\<open>shouldRetry\<close> accepts it and the call is retried until the budget of 3 is spent:
  4 calls to \<^verbatim>\<open>fetch\<close> for one client-class failure.
\<close>

theorem shouldRetry_accepts_405:
  "shouldRetry (http_error (respond 405 ''Method Not Allowed'')) = Inr True
   \<and> retryCount (new_HttpClient no_options) = 3
   \<and> length (calls (snd (requestWithRetry (always (respond 405 ''Method Not Allowed''))
        (new_HttpClient no_options) ''/api/data'' (Obj []) 0 server_start))) = 4"
  by (simp add: sample_defs client_defs val_defs requestWithRetry.simps)

text \<open>
  C4 at a failing input: the client has the default header \<^verbatim>\<open>X-Default\<close> and the call
  brings the header \<^verbatim>\<open>X-Call\<close>. The merged header map is built, and then
  \<^verbatim>\<open>...options\<close> puts the per-call map in its place: the configuration handed to
  \<^verbatim>\<open>fetch\<close> has \<^verbatim>\<open>X-Call\<close> only.
\<close>

theorem per_call_headers_replace_defaults:
  "calls (snd (snd (request (always (respond 200 ''OK''))
        (new_HttpClient (no_options\<lparr>opt_headers := Some [(''X-Default'', Str ''a'')]\<rparr>))
        ''/api/data'' [(''headers'', Obj [(''X-Call'', Str ''b'')])] server_start)))
   = [(''/api/data'',
       Obj [(''method'', Str ''GET''), (''headers'', Obj [(''X-Call'', Str ''b'')])])]"
  by (simp add: sample_defs client_defs val_defs requestWithRetry.simps)

text \<open>
  C5 at a failing input: the cache of a client with the default time-to-live of 300000 ms
  holds the result of \<^verbatim>\<open>GET /api/data\<close>, stored at time 10. At time 2010 the same call is
  made with \<^verbatim>\<open>cacheTimeout: 1000\<close>. The entry is 2000 ms old, older than the override,
  and it is returned all the same, without a call to \<^verbatim>\<open>fetch\<close>: the lookup reads the
  client's time-to-live only.
\<close>

theorem per_request_ttl_ignored:
  "cacheTimeout warm_client = 300000
   \<and> cache warm_client = [(''GET:/api/data:'', \<lparr>data = ok_result, timestamp = 10\<rparr>)]
   \<and> request (always (respond 200 ''OK'')) warm_client ''/api/data''
        [(''cacheTimeout'', Num 1000)] (server_start\<lparr>now := 2010\<rparr>)
      = (Inr ok_result, warm_client, server_start\<lparr>now := 2010\<rparr>)"
  by (simp add: warm_client_def ok_result_def sample_defs client_defs val_defs requestWithRetry.simps)

section \<open>The cache in front of the network\<close>

lemma requestWithRetry_calls:
  "\<exists>n. calls (snd (requestWithRetry h c url options rc w))
         = calls w @ replicate (Suc n) (url, options)"
proof (induction h c url options rc w rule: requestWithRetry.induct)
  case (1 h c url options rc w)
  obtain x w' where a: "attempt h c url options w = (x, w')"
    by (cases "attempt h c url options w")
  then have cw: "calls w' = calls w @ [(url, options)]"
    using attempt_calls [of h c url options w] by simp
  show ?case
  proof (cases "\<exists>error. x = Inl error \<and> rc < retryCount c \<and> shouldRetry error = Inr True")
    case True
    then obtain error where e: "x = Inl error" "rc < retryCount c" "shouldRetry error = Inr True"
      by blast
    from "1.IH" [OF a [symmetric] _ e(2) e(3)] e(1)
    obtain n where
      "calls (snd (requestWithRetry h c url options (rc + 1) (delay (retryDelay c) w')))
         = calls (delay (retryDelay c) w') @ replicate (Suc n) (url, options)"
      by auto
    then have "calls (snd (requestWithRetry h c url options rc w))
                 = calls w @ replicate (Suc (Suc n)) (url, options)"
      using a e cw by (subst requestWithRetry.simps) (simp add: calls_delay)
    then show ?thesis by blast
  next
    case False
    then have "snd (requestWithRetry h c url options rc w) = w'"
      using a by (subst requestWithRetry.simps) (auto split: sum.splits bool.splits)
    then show ?thesis using cw by (intro exI [of _ 0]) simp
  qed
qed

lemma Map_get_set: "Map_get (Map_set m k v) k' = (if k' = k then Some v else Map_get m k')"
  by (induction m) (auto simp: Map_get_def)

lemma Map_get_delete: "Map_get (Map_delete m k) k' = (if k' = k then None else Map_get m k')"
  by (induction m) (auto simp: Map_get_def Map_delete_def)

lemma request_send_calls:
  assumes "request_send h c url config w = (res, c', w')"
  shows "\<exists>n. calls w' = calls w @ replicate (Suc n) (url, config)"
proof -
  obtain sent w1 where s: "requestWithRetry h c url config 0 w = (sent, w1)"
    by (cases "requestWithRetry h c url config 0 w")
  then have "w' = w1" using assms
    by (auto simp: request_send_def split: sum.splits bool.splits)
  then show ?thesis using requestWithRetry_calls [of h c url config 0 w] s by simp
qed

lemma request_send_failure:
  "request_send h c url config w = (Inl e, c', w') \<Longrightarrow> c' = c"
  by (auto simp: request_send_def split: prod.splits sum.splits bool.splits)

lemma request_send_success:
  "request_send h c url config w = (Inr r, c', w') \<Longrightarrow> cacheable config = Inr True \<Longrightarrow>
   generateCacheKey h url config = Inr k \<Longrightarrow> c' = setCache c k r w'"
  by (auto simp: request_send_def split: prod.splits sum.splits bool.splits)

lemma request_send_cache:
  assumes "request_send h c url config w = (res, c', w')"
  shows "c' = c \<or> (\<exists>k r. res = Inr r \<and> generateCacheKey h url config = Inr k
                       \<and> c' = setCache c k r w')"
proof -
  obtain sent w1 where s: "requestWithRetry h c url config 0 w = (sent, w1)"
    by (cases "requestWithRetry h c url config 0 w")
  define processed where
    "processed = then_do sent (\<lambda>r. then_do (parse_response r)
                   (\<lambda>d. processResponseInterceptors c w1 (make_result d r config)))"
  show ?thesis
  proof (cases processed)
    case (Inl error)
    then have "c' = c" using assms s
      by (simp add: request_send_def processed_def [symmetric])
    then show ?thesis by simp
  next
    case (Inr r)
    show ?thesis
    proof (cases "\<exists>k. cacheable config = Inr True \<and> generateCacheKey h url config = Inr k")
      case True
      then obtain k where k: "cacheable config = Inr True" "generateCacheKey h url config = Inr k"
        by blast
      then have "res = Inr r \<and> c' = setCache c k r w'" using assms s Inr
        by (auto simp: request_send_def processed_def [symmetric])
      then show ?thesis using k by blast
    next
      case False
      then have "c' = c" using assms s Inr
        by (auto simp: request_send_def processed_def [symmetric] split: sum.splits bool.splits)
      then show ?thesis by simp
    qed
  qed
qed

lemma request_send_effect:
  assumes "request_send h c url config w = (res, c', w')"
  shows "length (calls w) < length (calls w')
       \<and> (c' = c \<or> (\<exists>k r. res = Inr r \<and> generateCacheKey h url config = Inr k
                         \<and> c' = setCache c k r w'))"
  using request_send_calls [OF assms] request_send_cache [OF assms] by auto

lemma getCache_cases:
  "getCache c k w = (cached, c') \<Longrightarrow>
     (\<exists>e. Map_get (cache c) k = Some e \<and> now w - timestamp e < cacheTimeout c
          \<and> cached = data e \<and> c' = c)
   \<or> (cached = Null \<and> c' = c\<lparr>cache := Map_delete (cache c) k\<rparr>)"
  by (auto simp: getCache_def split: option.splits if_splits)

lemma getCache_hit:
  "Map_get (cache c) k = Some e \<Longrightarrow> now w - timestamp e < cacheTimeout c \<Longrightarrow>
   getCache c k w = (data e, c)"
  by (simp add: getCache_def)

text \<open>A lookup never returns an entry that is as old as the client's time-to-live.\<close>

lemma getCache_expired:
  "Map_get (cache c) k = Some e \<Longrightarrow> \<not> now w - timestamp e < cacheTimeout c \<Longrightarrow>
   getCache c k w = (Null, c\<lparr>cache := Map_delete (cache c) k\<rparr>)"
  by (simp add: getCache_def)

lemma request_hit:
  assumes "processRequestInterceptors c w (initial_config c options) = Inr config"
    and "cacheable config = Inr True"
    and "generateCacheKey h (fullUrl c url) config = Inr k"
    and "Map_get (cache c) k = Some e" and "now w - timestamp e < cacheTimeout c"
    and "truthy (data e)"
  shows "request h c url options w = (Inr (data e), c, w)"
  using assms by (simp add: request_def getCache_hit)

lemma request_success_cached:
  assumes "processRequestInterceptors c w (initial_config c options) = Inr config"
    and "cacheable config = Inr True"
    and "generateCacheKey h (fullUrl c url) config = Inr k"
    and "request h c url options w = (Inr r, c1, w1)"
  shows "\<exists>e. Map_get (cache c1) k = Some e \<and> data e = r"
proof -
  obtain cached cg where g: "getCache c k w = (cached, cg)" by (cases "getCache c k w")
  show ?thesis
  proof (cases "truthy cached")
    case True
    then have "cached \<noteq> Null" by auto
    with getCache_cases [OF g] obtain e where
      "Map_get (cache c) k = Some e" "cached = data e" "cg = c" by auto
    moreover have "r = cached" "c1 = cg" using assms g True by (simp_all add: request_def)
    ultimately show ?thesis by auto
  next
    case False
    then have "request_send h cg (fullUrl c url) config w = (Inr r, c1, w1)"
      using assms g by (simp add: request_def)
    from request_send_success [OF this assms(2) assms(3)]
    show ?thesis by (simp add: setCache_def Map_get_set)
  qed
qed

text \<open>An entry that a call adds or changes holds the result the call returns.\<close>

lemma request_write:
  assumes "request h c url options w = (res, c1, w1)"
    and "Map_get (cache c1) k = Some x" and "Map_get (cache c) k \<noteq> Some x"
  shows "res = Inr (data x) \<and> timestamp x = now w1 \<and> length (calls w) < length (calls w1)"
  using assms
  by (auto simp: request_def setCache_def Map_get_set Map_get_delete
      split: sum.splits bool.splits prod.splits if_splits
      dest!: request_send_effect getCache_cases)

text \<open>
  C8, as stated, fails: the response interceptor of \<open>unwrapping_client\<close> returns
  \<^verbatim>\<open>response.data\<close>, here the number 0. The first \<^verbatim>\<open>GET /api/count\<close> stores it in the
  cache; the repeat call one second later, well within the time-to-live of 300000 ms,
  finds it, but \<^verbatim>\<open>if (cachedResponse)\<close> does not take a falsy value for a hit, and
  \<^verbatim>\<open>fetch\<close> is called a second time.
\<close>

theorem falsy_result_counterexample:
  "request (always count_response) unwrapping_client ''/api/count'' [] server_start
     = (Inr (Num 0), cached_zero, count_done)
   \<and> cacheTimeout cached_zero = 300000
   \<and> length (calls (snd (snd (request (always count_response) cached_zero ''/api/count'' []
                                 (count_done\<lparr>now := 1010\<rparr>))))) = 2"
  by (simp add: count_response_def unwrapping_client_def cached_zero_def count_done_def
      sample_defs client_defs val_defs requestWithRetry.simps)

text \<open>
  C8, amended: take a \<^verbatim>\<open>GET\<close> call with caching enabled that returned a truthy
  result, as every Result object is, and any later call with caching enabled that has
  the same cache key (method, full URL, serialized body), made while the cached entry
  is younger than the client's time-to-live and than the call's own \<^verbatim>\<open>cacheTimeout\<close>,
  if it gives one. The later call returns that result and leaves the client and the
  state outside it as they were: no call to \<^verbatim>\<open>fetch\<close>, no retry, no cache write.
  Every entry that a call adds to the cache, or changes, holds the result that the call
  returns after it has called \<^verbatim>\<open>fetch\<close>, stamped with the time of the return:
  nothing is written on a hit or on a failure.
\<close>

theorem cache_hit_bypasses_dispatch:
  "(\<forall>config k r c1 w1 url2 options2 config2 w2.
      processRequestInterceptors c w (initial_config c options) = Inr config
      \<and> cacheable config = Inr True
      \<and> generateCacheKey h (fullUrl c url) config = Inr k
      \<and> request h c url options w = (Inr r, c1, w1)
      \<and> truthy r
      \<and> processRequestInterceptors c1 w2 (initial_config c1 options2) = Inr config2
      \<and> cacheable config2 = Inr True
      \<and> generateCacheKey h (fullUrl c1 url2) config2 = Inr k
      \<and> (\<forall>e. Map_get (cache c1) k = Some e \<longrightarrow>
            now w2 - timestamp e < cacheTimeout c1
            \<and> (\<forall>t. get_member config2 ''cacheTimeout'' = Inr (Num t)
                  \<longrightarrow> now w2 - timestamp e < t))
      \<longrightarrow> request h c1 url2 options2 w2 = (Inr r, c1, w2))
   \<and> (\<forall>res c1 w1 k x.
      request h c url options w = (res, c1, w1)
      \<and> Map_get (cache c1) k = Some x \<and> Map_get (cache c) k \<noteq> Some x
      \<longrightarrow> res = Inr (data x) \<and> timestamp x = now w1 \<and> length (calls w) < length (calls w1))"
proof (intro conjI allI impI)
  fix config k r c1 w1 url2 options2 config2 w2
  assume a: "processRequestInterceptors c w (initial_config c options) = Inr config
      \<and> cacheable config = Inr True
      \<and> generateCacheKey h (fullUrl c url) config = Inr k
      \<and> request h c url options w = (Inr r, c1, w1)
      \<and> truthy r
      \<and> processRequestInterceptors c1 w2 (initial_config c1 options2) = Inr config2
      \<and> cacheable config2 = Inr True
      \<and> generateCacheKey h (fullUrl c1 url2) config2 = Inr k
      \<and> (\<forall>e. Map_get (cache c1) k = Some e \<longrightarrow>
            now w2 - timestamp e < cacheTimeout c1
            \<and> (\<forall>t. get_member config2 ''cacheTimeout'' = Inr (Num t)
                  \<longrightarrow> now w2 - timestamp e < t))"
  then obtain e where e: "Map_get (cache c1) k = Some e" "data e = r"
    using request_success_cached [of c w options config h url k r c1 w1] by blast
  then have "now w2 - timestamp e < cacheTimeout c1" using a by blast
  then show "request h c1 url2 options2 w2 = (Inr r, c1, w2)"
    using request_hit [of c1 w2 options2 config2 h url2 k e] a e by simp
next
  fix res c1 w1 k x
  assume "request h c url options w = (res, c1, w1)
      \<and> Map_get (cache c1) k = Some x \<and> Map_get (cache c) k \<noteq> Some x"
  then have written: "res = Inr (data x) \<and> timestamp x = now w1
      \<and> length (calls w) < length (calls w1)"
    using request_write [of h c url options w res c1 w1 k x] by blast
  show "res = Inr (data x)" using written by blast
  show "timestamp x = now w1" using written by blast
  show "length (calls w) < length (calls w1)" using written by blast
qed

theorem cache_hit_bypasses_dispatch_witness:
  "request (always (respond 200 ''OK'')) short_lived ''/api/user'' [] server_start
     = (Inr ok_result, after_first, first_done)
   \<and> truthy ok_result
   \<and> now one_second_later - 10 < cacheTimeout after_first
   \<and> request (always (respond 200 ''OK'')) after_first ''/api/user''
       [(''headers'', Obj [(''X-Trace'', Str ''1'')])] one_second_later
     = (Inr ok_result, after_first, one_second_later)
   \<and> length (calls one_second_later) = 1"
proof -
  let ?h = "always (respond 200 ''OK'')"
  let ?config = "Obj [(''method'', Str ''GET''),
                      (''headers'', Obj [(''Content-Type'', Str ''application/json'')])]"
  let ?options2 = "[(''headers'', Obj [(''X-Trace'', Str ''1'')])]"
  let ?config2 = "Obj [(''method'', Str ''GET''), (''headers'', Obj [(''X-Trace'', Str ''1'')])]"
  have first: "request ?h short_lived ''/api/user'' [] server_start
                 = (Inr ok_result, after_first, first_done)"
    by (simp add: short_lived_def ok_result_def after_first_def first_done_def
        sample_defs client_defs val_defs requestWithRetry.simps)
  have config: "processRequestInterceptors short_lived server_start (initial_config short_lived [])
                  = Inr ?config"
    by (simp add: short_lived_def client_defs val_defs)
  have config2: "processRequestInterceptors after_first one_second_later
                   (initial_config after_first ?options2) = Inr ?config2"
    by (simp add: short_lived_def after_first_def client_defs val_defs)
  have enabled: "cacheable ?config = Inr True"
    by (simp add: client_defs val_defs)
  have enabled2: "cacheable ?config2 = Inr True"
    by (simp add: client_defs val_defs)
  have key: "generateCacheKey ?h (fullUrl short_lived ''/api/user'') ?config = Inr ''GET:/api/user:''"
    by (simp add: short_lived_def client_defs val_defs)
  have key2: "generateCacheKey ?h (fullUrl after_first ''/api/user'') ?config2 = Inr ''GET:/api/user:''"
    by (simp add: short_lived_def after_first_def client_defs val_defs)
  have truthy: "truthy ok_result" by (simp add: ok_result_def)
  have fresh: "\<forall>e. Map_get (cache after_first) ''GET:/api/user:'' = Some e \<longrightarrow>
                 now one_second_later - timestamp e < cacheTimeout after_first
                 \<and> (\<forall>t. get_member ?config2 ''cacheTimeout'' = Inr (Num t)
                       \<longrightarrow> now one_second_later - timestamp e < t)"
    by (simp add: short_lived_def after_first_def first_done_def one_second_later_def
        client_defs val_defs)
  have window: "now one_second_later - 10 < cacheTimeout after_first"
    by (simp add: short_lived_def after_first_def first_done_def one_second_later_def
        client_defs val_defs)
  have "request ?h after_first ''/api/user'' ?options2 one_second_later
          = (Inr ok_result, after_first, one_second_later)"
    using cache_hit_bypasses_dispatch [of short_lived server_start "[]" ?h "''/api/user''"]
      first config config2 enabled enabled2 key key2 truthy fresh
    by blast
  moreover have "length (calls one_second_later) = 1"
    by (simp add: first_done_def one_second_later_def server_start_def)
  ultimately show ?thesis using first truthy window by simp
qed


section \<open>The URL is fixed before the interceptors run\<close>

text \<open>
  C10: the URL of every call that \<^verbatim>\<open>request\<close> makes to \<^verbatim>\<open>fetch\<close> is the full URL
  computed from the caller's path and the client's base URL, whatever the request
  interceptors are; every cache entry that \<^verbatim>\<open>request\<close> changes stands under the key
  built from that URL and the config the interceptors returned; and neither the full
  URL nor the key depends on the config's \<^verbatim>\<open>url\<close> field, so a request interceptor that
  rewrites it, to add a \<^verbatim>\<open>_t\<close> parameter or otherwise, changes neither.
\<close>

theorem dispatched_url_ignores_interceptors:
  assumes "request h c url options w = (res, c', w')"
  shows "(\<forall>e. processRequestInterceptors c w (initial_config c options) = Inl e
             \<longrightarrow> c' = c \<and> w' = w)
       \<and> (\<forall>config. processRequestInterceptors c w (initial_config c options) = Inr config \<longrightarrow>
             (\<exists>n. calls w' = calls w @ replicate n (fullUrl c url, config))
             \<and> (\<forall>k. Map_get (cache c') k \<noteq> Map_get (cache c) k
                   \<longrightarrow> generateCacheKey h (fullUrl c url) config = Inr k))
       \<and> (\<forall>ris. fullUrl (c\<lparr>request_interceptors := ris\<rparr>) url = fullUrl c url)
       \<and> (\<forall>config x config' u. put_member config ''url'' x = Inr config'
             \<longrightarrow> generateCacheKey h u config' = generateCacheKey h u config)"
proof -
  have halted: "c' = c \<and> w' = w"
    if "processRequestInterceptors c w (initial_config c options) = Inl e" for e
    using assms that by (simp add: request_def)
  have dispatched: "\<exists>n. calls w' = calls w @ replicate n (fullUrl c url, config)"
    if cfg: "processRequestInterceptors c w (initial_config c options) = Inr config" for config
  proof -
    have none: "calls w = calls w @ replicate 0 (fullUrl c url, config)" by simp
    show ?thesis
      using assms cfg none
      by (auto simp: request_def split: sum.splits bool.splits prod.splits if_splits
          dest!: request_send_calls)
  qed
  have keyed: "generateCacheKey h (fullUrl c url) config = Inr k"
    if cfg: "processRequestInterceptors c w (initial_config c options) = Inr config"
      and diff: "Map_get (cache c') k \<noteq> Map_get (cache c) k" for config k
    using assms cfg diff
    by (auto simp: request_def setCache_def Map_get_set Map_get_delete
        split: sum.splits bool.splits prod.splits if_splits
        dest!: request_send_cache getCache_cases)
  have resolved: "fullUrl (c\<lparr>request_interceptors := ris\<rparr>) url = fullUrl c url" for ris
    by (simp add: fullUrl_def)
  have key_reads: "generateCacheKey h u config' = generateCacheKey h u config"
    if "put_member config ''url'' x = Inr config'" for config x config' u
    using that
    by (cases config)
      (auto simp: generateCacheKey_def own_prop_def set_prop_def map_of_Map_set)
  show ?thesis using halted dispatched keyed resolved key_reads by blast
qed

theorem dispatched_url_ignores_interceptors_witness:
  "processRequestInterceptors stamping_client server_start (initial_config stamping_client [])
     = Inr (Obj [(''method'', Str ''GET''),
                 (''headers'', Obj [(''Content-Type'', Str ''application/json'')]),
                 (''url'', Str ''/other?_t=0'')])
   \<and> calls (snd (snd (request (always (respond 200 ''OK'')) stamping_client ''/user'' []
                         server_start)))
     = [(''/api/user'',
         Obj [(''method'', Str ''GET''),
              (''headers'', Obj [(''Content-Type'', Str ''application/json'')]),
              (''url'', Str ''/other?_t=0'')])]
   \<and> map fst (cache (fst (snd (request (always (respond 200 ''OK'')) stamping_client ''/user'' []
                                   server_start))))
     = [''GET:/api/user:'']"
proof -
  let ?h = "always (respond 200 ''OK'')"
  let ?r = "request ?h stamping_client ''/user'' [] server_start"
  have whole: "?r = (fst ?r, fst (snd ?r), snd (snd ?r))" by simp
  note facts = dispatched_url_ignores_interceptors [OF whole]
  have stamped: "processRequestInterceptors stamping_client server_start
                   (initial_config stamping_client [])
     = Inr (Obj [(''method'', Str ''GET''),
                 (''headers'', Obj [(''Content-Type'', Str ''application/json'')]),
                 (''url'', Str ''/other?_t=0'')])"
    by (simp add: stamping_client_def sample_defs client_defs val_defs)
  have "fullUrl stamping_client ''/user'' = ''/api/user''"
    by (simp add: stamping_client_def sample_defs client_defs val_defs)
  moreover from facts stamped obtain n where
    "calls (snd (snd ?r)) = calls server_start @ replicate n
       (fullUrl stamping_client ''/user'',
        Obj [(''method'', Str ''GET''),
             (''headers'', Obj [(''Content-Type'', Str ''application/json'')]),
             (''url'', Str ''/other?_t=0'')])"
    by blast
  moreover have "length (calls (snd (snd ?r))) = 1"
    by (simp add: stamping_client_def sample_defs client_defs val_defs requestWithRetry.simps)
  moreover have "calls server_start = []" by (simp add: server_start_def)
  ultimately have sent: "calls (snd (snd ?r))
     = [(''/api/user'',
         Obj [(''method'', Str ''GET''),
              (''headers'', Obj [(''Content-Type'', Str ''application/json'')]),
              (''url'', Str ''/other?_t=0'')])]"
    by (cases n) auto
  have "map fst (cache (fst (snd ?r))) = [''GET:/api/user:'']"
    by (simp add: stamping_client_def sample_defs client_defs val_defs requestWithRetry.simps)
  then show ?thesis using stamped sent by simp
qed

end
